theory Spec2Isabelle
  imports Complex_Main
begin

section \<open>VideoGadjo: data model\<close>

text \<open>
  The development embeds the parts of \<^verbatim>\<open>src/server.js\<close> and
  \<^verbatim>\<open>src/public/js/app.js\<close> that the ingestion pipeline, the ordering of clips, the
  marks and the export summary are made of.

  Conventions of the embedding.
  \<^item> The file name that \<^verbatim>\<open>detectVideoSource\<close> classifies is a list of UTF-16 code units.
    Every other JavaScript string is a \<^typ>\<open>string\<close>, whose characters are the 8-bit
    characters of HOL: there the model covers code units below 256. The pictographs
    that open some log messages of the source are left out of the literals.
  \<^item> Seconds (\<^verbatim>\<open>in_point\<close>, \<^verbatim>\<open>out_point\<close>, \<^verbatim>\<open>duration\<close>) are \<^typ>\<open>real\<close>: the
    arithmetic of the model is exact, where the source computes in IEEE doubles.
  \<^item> A time stamp is an \<^typ>\<open>int\<close>, the milliseconds of a JavaScript \<^verbatim>\<open>Date\<close>; a field
    that may be \<^verbatim>\<open>undefined\<close> or \<^verbatim>\<open>null\<close> is an \<^typ>\<open>'a option\<close>.
  \<^item> A \<^verbatim>\<open>Map\<close> of the server's \<^verbatim>\<open>localStore\<close> is a map \<open>string \<rightharpoonup> 'v\<close>.
  \<^item> A global that a function mutates (\<^verbatim>\<open>memoryLogs\<close>, \<^verbatim>\<open>localStore\<close>) is passed in and
    returned; a value read from the environment (the clock, \<^verbatim>\<open>uuidv4()\<close>, the events
    of a child process) is a parameter.
\<close>

datatype processing_status = Pending | Processing | Ready | Failed

datatype source = Android | Iphone | Gopro | Dji | Whatsapp | Other

text \<open>
  A mark and a clip, as the objects the server builds and the client reads. The field
  \<^verbatim>\<open>id\<close> of the source is \<open>mark_id\<close> for a mark and \<open>vid\<close> for a clip. Fields that no
  modelled function reads (\<^verbatim>\<open>width\<close>, \<^verbatim>\<open>height\<close>, \<^verbatim>\<open>file_size\<close>, \<^verbatim>\<open>uploaded_by\<close>) are
  left out.
\<close>

record mark =
  mark_id :: string
  video_id :: string
  in_point :: real
  out_point :: real
  created_at :: string

record video =
  vid :: string
  project_id :: string
  original_filename :: string
  original_path :: string
  source :: source
  duration :: real
  filename_date :: "int option"
  metadata_date :: "int option"
  upload_date :: int
  order_index :: "int option"
  included :: bool
  processing_status :: processing_status
  proxy_url :: "string option"
  thumbnail_url :: "string option"
  marks :: "mark list option"

text \<open>\<^verbatim>\<open>localStore\<close> of the server (local mode): its maps of clips and of marks. The maps
  of projects and of exports are not read by the modelled functions.\<close>

record localStore =
  videos :: "string \<rightharpoonup> video"
  store_marks :: "string \<rightharpoonup> mark"

section \<open>Filename heuristics\<close>

subsection \<open>The regular expressions of the source\<close>

text \<open>
  Every regular expression of \<^verbatim>\<open>parseFilenameDate\<close> and \<^verbatim>\<open>detectVideoSource\<close> is a
  sequence of fixed length: literal characters, character classes, \<^verbatim>\<open>\d{n}\<close> and
  captured \<^verbatim>\<open>(\d{n})\<close>. A pattern is the list of these pieces.
\<close>

datatype atom = Lit char | Digit | AnyOf "char list" | AnyOfOrSpace "char list"

datatype piece = Single atom | Digits nat | Group nat

definition is_digit :: "char \<Rightarrow> bool" where
  "is_digit c = (c \<in> set ''0123456789'')"

text \<open>\<^verbatim>\<open>\s\<close> on code units below 256: tab, line feed, vertical tab, form feed, carriage
  return, space and the no-break space.\<close>

definition is_space :: "char \<Rightarrow> bool" where
  "is_space c = ((of_char c :: nat) \<in> {9, 10, 11, 12, 13, 32, 160})"

text \<open>
  The canonicalisation of the \<^verbatim>\<open>i\<close> flag (a regular expression without the \<^verbatim>\<open>u\<close>
  flag): two characters match when their canonical forms are equal. \<^verbatim>\<open>a\<close> to \<^verbatim>\<open>z\<close> go
  to \<^verbatim>\<open>A\<close> to \<^verbatim>\<open>Z\<close>. ECMAScript never maps a code unit of 128 or above to one below
  128, and the literal characters of the patterns are all below 128, so a character of
  128 or above matches none of them whatever its canonical form is: the model leaves
  it as it is.
\<close>

definition canonicalize_char :: "char \<Rightarrow> char" where
  "canonicalize_char c =
     (case map_of (zip ''abcdefghijklmnopqrstuvwxyz'' ''ABCDEFGHIJKLMNOPQRSTUVWXYZ'') c of
        Some u \<Rightarrow> u | None \<Rightarrow> c)"

fun atom_matches :: "bool \<Rightarrow> atom \<Rightarrow> char \<Rightarrow> bool" where
  "atom_matches ignoreCase (Lit l) c =
     (if ignoreCase then canonicalize_char c = canonicalize_char l else c = l)"
| "atom_matches ignoreCase Digit c = is_digit c"
| "atom_matches ignoreCase (AnyOf cs) c =
     (if ignoreCase then canonicalize_char c \<in> canonicalize_char ` set cs else c \<in> set cs)"
| "atom_matches ignoreCase (AnyOfOrSpace cs) c =
     ((if ignoreCase then canonicalize_char c \<in> canonicalize_char ` set cs else c \<in> set cs)
      \<or> is_space c)"

text \<open>A match of the whole pattern at the start of \<open>s\<close>; the result is the captures.\<close>

fun match_here :: "bool \<Rightarrow> piece list \<Rightarrow> string \<Rightarrow> string list option" where
  "match_here ignoreCase [] s = Some []"
| "match_here ignoreCase (Single a # ps) [] = None"
| "match_here ignoreCase (Single a # ps) (c # cs) =
     (if atom_matches ignoreCase a c then match_here ignoreCase ps cs else None)"
| "match_here ignoreCase (Digits n # ps) s =
     (if n \<le> length s \<and> list_all is_digit (take n s)
      then match_here ignoreCase ps (drop n s) else None)"
| "match_here ignoreCase (Group n # ps) s =
     (if n \<le> length s \<and> list_all is_digit (take n s)
      then map_option ((#) (take n s)) (match_here ignoreCase ps (drop n s)) else None)"

text \<open>\<^verbatim>\<open>filename.match(pattern)\<close> for a pattern with no anchor: the leftmost position at
  which the pattern matches.\<close>

fun string_match :: "bool \<Rightarrow> piece list \<Rightarrow> string \<Rightarrow> string list option" where
  "string_match ignoreCase ps [] = match_here ignoreCase ps []"
| "string_match ignoreCase ps (c # cs) =
     (case match_here ignoreCase ps (c # cs) of
        Some groups \<Rightarrow> Some groups
      | None \<Rightarrow> string_match ignoreCase ps cs)"

definition lits :: "string \<Rightarrow> piece list" where
  "lits s = map (\<lambda>c. Single (Lit c)) s"

subsection \<open>\<^verbatim>\<open>new Date(year, month, day, hour, minute, second)\<close>\<close>

text \<open>
  The constructor as ECMAScript defines it: \<^verbatim>\<open>MakeDay\<close> carries a month outside 0..11
  into the year and counts the day from the first of the month whatever its value, a
  year from 0 to 99 means 1900 + year, and the result is \<^verbatim>\<open>NaN\<close> (here \<open>None\<close>) only
  when \<^verbatim>\<open>TimeClip\<close> finds the time value beyond 8.64e15 ms. \<open>UTC\<close> is the host's
  conversion of a local time value to UTC.
\<close>

definition InLeapYear :: "int \<Rightarrow> bool" where
  "InLeapYear y = ((y mod 4 = 0 \<and> y mod 100 \<noteq> 0) \<or> y mod 400 = 0)"

definition DayFromYear :: "int \<Rightarrow> int" where
  "DayFromYear y =
     365 * (y - 1970) + (y - 1969) div 4 - (y - 1901) div 100 + (y - 1601) div 400"

definition month_lengths :: "int \<Rightarrow> int list" where
  "month_lengths y =
     [31, if InLeapYear y then 29 else 28, 31, 30, 31, 30, 31, 31, 30, 31, 30, 31]"

definition MakeDay :: "int \<Rightarrow> int \<Rightarrow> int \<Rightarrow> int" where
  "MakeDay year month date =
     (let ym = year + month div 12;
          mn = month mod 12
      in DayFromYear ym + sum_list (take (nat mn) (month_lengths ym)) + date - 1)"

definition MakeTime :: "int \<Rightarrow> int \<Rightarrow> int \<Rightarrow> int \<Rightarrow> int" where
  "MakeTime hour minute sec ms = hour * 3600000 + minute * 60000 + sec * 1000 + ms"

definition MakeDate :: "int \<Rightarrow> int \<Rightarrow> int" where
  "MakeDate day time = day * 86400000 + time"

definition TimeClip :: "int \<Rightarrow> int option" where
  "TimeClip t = (if \<bar>t\<bar> > 8640000000000000 then None else Some t)"

definition new_Date ::
  "(int \<Rightarrow> int) \<Rightarrow> int \<Rightarrow> int \<Rightarrow> int \<Rightarrow> int \<Rightarrow> int \<Rightarrow> int \<Rightarrow> int option" where
  "new_Date UTC year month date hours minutes seconds =
     (let yr = (if 0 \<le> year \<and> year \<le> 99 then 1900 + year else year)
      in TimeClip (UTC (MakeDate (MakeDay yr month date) (MakeTime hours minutes seconds 0))))"

subsection \<open>\<^verbatim>\<open>parseFilenameDate\<close>\<close>

text \<open>The five patterns, in the order of the source, each with its \<^verbatim>\<open>i\<close> flag.\<close>

definition patterns :: "(bool \<times> piece list) list" where
  "patterns =
    [(True, lits ''VID_'' @ [Group 4, Group 2, Group 2, Single (Lit CHR ''_''),
                             Group 2, Group 2, Group 2]),
     (True, lits ''DJI_'' @ [Group 4, Group 2, Group 2, Group 2, Group 2, Group 2]),
     (False, [Group 4, Single (AnyOf ''-_''), Group 2, Single (AnyOf ''-_''), Group 2,
              Single (AnyOfOrSpace ''-_''), Group 2, Single (AnyOf ''-_''), Group 2,
              Single (AnyOf ''-_''), Group 2]),
     (False, [Group 4, Group 2, Group 2, Single (Lit CHR ''_''), Group 2, Group 2, Group 2]),
     (True, lits ''VID-'' @ [Group 4, Group 2, Group 2] @ lits ''-WA'')]"

text \<open>\<^verbatim>\<open>parseInt\<close> is only applied to captures, which are strings of decimal digits.\<close>

definition digit_value :: "char \<Rightarrow> int" where
  "digit_value c = int (of_char c) - 48"

definition parseInt :: "string \<Rightarrow> int" where
  "parseInt s = foldl (\<lambda>n c. 10 * n + digit_value c) 0 s"

text \<open>The destructuring \<^verbatim>\<open>[, year, month, day, hour = '00', ...] = match\<close>: a capture
  the pattern does not have takes the default.\<close>

definition group_or :: "string list \<Rightarrow> nat \<Rightarrow> string \<Rightarrow> string" where
  "group_or groups i dflt = (if i < length groups then groups ! i else dflt)"

fun parse_patterns :: "(int \<Rightarrow> int) \<Rightarrow> (bool \<times> piece list) list \<Rightarrow> string \<Rightarrow> int option" where
  "parse_patterns UTC [] filename = None"
| "parse_patterns UTC ((ignoreCase, pattern) # rest) filename =
     (case string_match ignoreCase pattern filename of
        None \<Rightarrow> parse_patterns UTC rest filename
      | Some groups \<Rightarrow>
          (case new_Date UTC (parseInt (group_or groups 0 ''0''))
                  (parseInt (group_or groups 1 ''0'') - 1)
                  (parseInt (group_or groups 2 ''0''))
                  (parseInt (group_or groups 3 ''00''))
                  (parseInt (group_or groups 4 ''00''))
                  (parseInt (group_or groups 5 ''00'')) of
             Some date \<Rightarrow> Some date
           | None \<Rightarrow> parse_patterns UTC rest filename))"

definition parseFilenameDate :: "(int \<Rightarrow> int) \<Rightarrow> string \<Rightarrow> int option" where
  "parseFilenameDate UTC filename = parse_patterns UTC patterns filename"

text \<open>
  For the properties: the lengths of the captures a pattern has, a capture of \<open>n\<close>
  digits, the date the source builds from the captures of a match, and a pattern
  whose captures are the year, the month and the day, with or without the time.
\<close>

fun group_sizes :: "piece list \<Rightarrow> nat list" where
  "group_sizes [] = []"
| "group_sizes (Single a # ps) = group_sizes ps"
| "group_sizes (Digits n # ps) = group_sizes ps"
| "group_sizes (Group n # ps) = n # group_sizes ps"

definition digits_of_length :: "string \<Rightarrow> nat \<Rightarrow> bool" where
  "digits_of_length g n = (length g = n \<and> list_all is_digit g)"

definition date_of_groups :: "(int \<Rightarrow> int) \<Rightarrow> string list \<Rightarrow> int option" where
  "date_of_groups UTC groups =
     new_Date UTC (parseInt (group_or groups 0 ''0''))
       (parseInt (group_or groups 1 ''0'') - 1)
       (parseInt (group_or groups 2 ''0''))
       (parseInt (group_or groups 3 ''00''))
       (parseInt (group_or groups 4 ''00''))
       (parseInt (group_or groups 5 ''00''))"

definition dated_pattern :: "bool \<times> piece list \<Rightarrow> bool" where
  "dated_pattern p = (group_sizes (snd p) = [4, 2, 2, 2, 2, 2] \<or> group_sizes (snd p) = [4, 2, 2])"

text \<open>What the specification asks of the captured numbers: a date of the calendar and a
  time of the day.\<close>

definition calendar_valid :: "int \<Rightarrow> int \<Rightarrow> int \<Rightarrow> int \<Rightarrow> int \<Rightarrow> int \<Rightarrow> bool" where
  "calendar_valid year month day hour minute second =
     (1 \<le> month \<and> month \<le> 12 \<and> 1 \<le> day \<and> day \<le> month_lengths year ! nat (month - 1)
      \<and> 0 \<le> hour \<and> hour < 24 \<and> 0 \<le> minute \<and> minute < 60 \<and> 0 \<le> second \<and> second < 60)"

subsection \<open>\<^verbatim>\<open>detectVideoSource\<close>\<close>

text \<open>
  \<^verbatim>\<open>detectVideoSource\<close> is modelled on the string as JavaScript has it: a sequence of
  UTF-16 code units, each a \<^typ>\<open>nat\<close>. \<open>units\<close> reads an 8-bit string as code units.
\<close>

definition units :: "string \<Rightarrow> nat list" where
  "units s = map of_char s"

text \<open>
  \<^verbatim>\<open>String.prototype.toUpperCase\<close>. The letters \<^verbatim>\<open>a\<close> to \<^verbatim>\<open>z\<close> go to \<^verbatim>\<open>A\<close> to \<^verbatim>\<open>Z\<close>.
  \<open>upper_special\<close> lists the other code units whose upper-case form in the Unicode
  tables (\<^verbatim>\<open>UnicodeData\<close>, \<^verbatim>\<open>SpecialCasing\<close>) holds a code unit below 128: sharp s, dotless
  i, n with apostrophe, long s, j with caron, h, t, w, y and a with their marks, and
  the ligatures of f and s. Every code unit that is not listed is upper-cased by
  JavaScript to code units of 128 or above, which no pattern of \<^verbatim>\<open>detectVideoSource\<close>
  accepts at any position; the model leaves such a code unit as it is.
\<close>

definition upper_special :: "(nat \<times> nat list) list" where
  "upper_special =
     [(0xDF, [0x53, 0x53]), (0x131, [0x49]), (0x149, [0x2BC, 0x4E]), (0x17F, [0x53]),
      (0x1F0, [0x4A, 0x30C]), (0x1E96, [0x48, 0x331]), (0x1E97, [0x54, 0x308]),
      (0x1E98, [0x57, 0x30A]), (0x1E99, [0x59, 0x30A]), (0x1E9A, [0x41, 0x2BE]),
      (0xFB00, [0x46, 0x46]), (0xFB01, [0x46, 0x49]), (0xFB02, [0x46, 0x4C]),
      (0xFB03, [0x46, 0x46, 0x49]), (0xFB04, [0x46, 0x46, 0x4C]), (0xFB05, [0x53, 0x54]),
      (0xFB06, [0x53, 0x54])]"

definition toUpperCase_unit :: "nat \<Rightarrow> nat list" where
  "toUpperCase_unit u =
     (if 97 \<le> u \<and> u \<le> 122 then [u - 32]
      else (case map_of upper_special u of Some us \<Rightarrow> us | None \<Rightarrow> [u]))"

definition toUpperCase :: "nat list \<Rightarrow> nat list" where
  "toUpperCase s = concat (map toUpperCase_unit s)"

text \<open>A pattern without the \<^verbatim>\<open>i\<close> flag, anchored at the start, tested on code units.
  \<^verbatim>\<open>\s\<close> is the white space and the line terminators of ECMAScript.\<close>

definition is_digit_unit :: "nat \<Rightarrow> bool" where
  "is_digit_unit u = (48 \<le> u \<and> u \<le> 57)"

definition is_space_unit :: "nat \<Rightarrow> bool" where
  "is_space_unit u =
     (u \<in> {9, 10, 11, 12, 13, 32, 160, 0x1680, 0x2028, 0x2029, 0x202F, 0x205F, 0x3000, 0xFEFF}
      \<or> (0x2000 \<le> u \<and> u \<le> 0x200A))"

fun unit_matches :: "atom \<Rightarrow> nat \<Rightarrow> bool" where
  "unit_matches (Lit l) u = (u = of_char l)"
| "unit_matches Digit u = is_digit_unit u"
| "unit_matches (AnyOf cs) u = (u \<in> of_char ` set cs)"
| "unit_matches (AnyOfOrSpace cs) u = (u \<in> of_char ` set cs \<or> is_space_unit u)"

fun test_anchored :: "piece list \<Rightarrow> nat list \<Rightarrow> bool" where
  "test_anchored [] s = True"
| "test_anchored (Single a # ps) [] = False"
| "test_anchored (Single a # ps) (u # us) = (unit_matches a u \<and> test_anchored ps us)"
| "test_anchored (Digits n # ps) s =
     (n \<le> length s \<and> list_all is_digit_unit (take n s) \<and> test_anchored ps (drop n s))"
| "test_anchored (Group n # ps) s =
     (n \<le> length s \<and> list_all is_digit_unit (take n s) \<and> test_anchored ps (drop n s))"

definition android_pattern :: "piece list" where
  "android_pattern = lits ''VID_'' @ [Digits 8, Single (Lit CHR ''_''), Digits 6]"

definition iphone_pattern :: "piece list" where
  "iphone_pattern = lits ''IMG_'' @ [Digits 4]"

definition gopro_pattern :: "piece list" where
  "gopro_pattern = [Single (Lit CHR ''G''), Single (AnyOf ''HOX''), Digits 6]"

definition dji_pattern :: "piece list" where
  "dji_pattern = lits ''DJI_''"

definition whatsapp_pattern :: "piece list" where
  "whatsapp_pattern = lits ''VID-'' @ [Digits 8] @ lits ''-WA''"

text \<open>The source upper-cases the name and tests the anchored patterns without the
  \<^verbatim>\<open>i\<close> flag, one \<^verbatim>\<open>if\<close> after the other.\<close>

definition detectVideoSource :: "nat list \<Rightarrow> source" where
  "detectVideoSource filename =
     (let name = toUpperCase filename
      in if test_anchored android_pattern name then Android
         else if test_anchored iphone_pattern name then Iphone
         else if test_anchored gopro_pattern name then Gopro
         else if test_anchored dji_pattern name then Dji
         else if test_anchored whatsapp_pattern name then Whatsapp
         else Other)"

text \<open>
  The specification's reading of \<^verbatim>\<open>classifySource\<close>: an ordered table of conventions,
  each matched against the file name itself without regard to case; the first that
  matches gives the category. Without regard to case means here: a code unit matches
  a literal of the pattern when it is that character or, for a capital letter, the
  small letter 32 code units above it. No upper-casing is involved.
\<close>

definition conventions :: "(piece list \<times> source) list" where
  "conventions =
     [(android_pattern, Android), (iphone_pattern, Iphone), (gopro_pattern, Gopro),
      (dji_pattern, Dji), (whatsapp_pattern, Whatsapp)]"

definition same_letter :: "char \<Rightarrow> nat \<Rightarrow> bool" where
  "same_letter l u =
     (u = of_char l \<or> (65 \<le> (of_char l :: nat) \<and> (of_char l :: nat) \<le> 90 \<and> u = of_char l + 32))"

fun unit_matches_ci :: "atom \<Rightarrow> nat \<Rightarrow> bool" where
  "unit_matches_ci (Lit l) u = same_letter l u"
| "unit_matches_ci Digit u = is_digit_unit u"
| "unit_matches_ci (AnyOf cs) u = list_ex (\<lambda>l. same_letter l u) cs"
| "unit_matches_ci (AnyOfOrSpace cs) u = (list_ex (\<lambda>l. same_letter l u) cs \<or> is_space_unit u)"

fun matches_convention :: "piece list \<Rightarrow> nat list \<Rightarrow> bool" where
  "matches_convention [] s = True"
| "matches_convention (Single a # ps) [] = False"
| "matches_convention (Single a # ps) (u # us) = (unit_matches_ci a u \<and> matches_convention ps us)"
| "matches_convention (Digits n # ps) s =
     (n \<le> length s \<and> list_all is_digit_unit (take n s) \<and> matches_convention ps (drop n s))"
| "matches_convention (Group n # ps) s =
     (n \<le> length s \<and> list_all is_digit_unit (take n s) \<and> matches_convention ps (drop n s))"

definition classifySource_spec :: "nat list \<Rightarrow> source" where
  "classifySource_spec filename =
     (case find (\<lambda>(p, c). matches_convention p filename) conventions of
        Some (p, c) \<Rightarrow> c
      | None \<Rightarrow> Other)"

text \<open>A pattern is in upper case when none of its literal characters is a small letter.\<close>

definition not_small :: "char \<Rightarrow> bool" where
  "not_small l = (\<not> (97 \<le> (of_char l :: nat) \<and> (of_char l :: nat) \<le> 122))"

fun upper_atom :: "atom \<Rightarrow> bool" where
  "upper_atom (Lit l) = not_small l"
| "upper_atom Digit = True"
| "upper_atom (AnyOf cs) = list_all not_small cs"
| "upper_atom (AnyOfOrSpace cs) = list_all not_small cs"

fun upper_piece :: "piece \<Rightarrow> bool" where
  "upper_piece (Single a) = upper_atom a"
| "upper_piece (Digits n) = True"
| "upper_piece (Group n) = True"

definition ascii :: "nat list \<Rightarrow> bool" where
  "ascii s = list_all (\<lambda>u. u < 128) s"

text \<open>The name \<^verbatim>\<open>img_1234.mov\<close> with a dotless i (U+0131) for its first letter.\<close>

definition dotless_img :: "nat list" where
  "dotless_img = 0x131 # units ''mg_1234.mov''"

section \<open>Debug logger\<close>

definition MAX_LOGS :: nat where
  "MAX_LOGS = 100"

record log_entry =
  timestamp :: string
  log_type :: string
  message :: string

text \<open>
  \<^verbatim>\<open>log(message, type)\<close>: \<^verbatim>\<open>unshift\<close> the entry, then \<^verbatim>\<open>pop\<close> when the buffer is
  longer than \<^verbatim>\<open>MAX_LOGS\<close>. The clock's ISO string is the parameter \<open>now\<close>; \<open>msg\<close> is
  the text of the message (every call of the source passes a string). The copy of the
  entry written to the console is not part of the model.
\<close>

definition log_debug :: "string \<Rightarrow> string \<Rightarrow> string \<Rightarrow> log_entry list \<Rightarrow> log_entry list" where
  "log_debug now msg ty memoryLogs =
     (let entry = \<lparr>timestamp = now, log_type = ty, message = msg\<rparr>;
          unshifted = entry # memoryLogs
      in if length unshifted > MAX_LOGS then butlast unshifted else unshifted)"

text \<open>A run of the server: the calls of \<^verbatim>\<open>log\<close> in order, each (clock, message, type).\<close>

fun log_calls :: "(string \<times> string \<times> string) list \<Rightarrow> log_entry list \<Rightarrow> log_entry list" where
  "log_calls [] memoryLogs = memoryLogs"
| "log_calls ((now, msg, ty) # cs) memoryLogs = log_calls cs (log_debug now msg ty memoryLogs)"

section \<open>Transcoder adapter\<close>

text \<open>
  A child process is the sequence of events its handlers see, each with the clock's
  reading at that moment: chunks of the diagnostic stream, \<^verbatim>\<open>'error'\<close> (the launch
  failed; the payload is \<^verbatim>\<open>err.message\<close>) and \<^verbatim>\<open>'close'\<close> with the exit code
  (\<open>None\<close> is \<^verbatim>\<open>null\<close>). A promise is settled by the first \<^verbatim>\<open>resolve\<close> or \<^verbatim>\<open>reject\<close>;
  later ones change nothing.
\<close>

datatype proc_event = Stderr_data string | Error_event string | Close_event "int option"

datatype 'a promise = Unsettled | Resolved 'a | Rejected string

fun settle :: "'a promise \<Rightarrow> 'a promise \<Rightarrow> 'a promise" where
  "settle Unsettled p = p"
| "settle (Resolved v) p = Resolved v"
| "settle (Rejected e) p = Rejected e"

text \<open>\<^verbatim>\<open>stderr.split('\n').slice(-10).join('\n')\<close>.\<close>

fun split_lines :: "string \<Rightarrow> string list" where
  "split_lines [] = [[]]"
| "split_lines (c # cs) =
     (if c = CHR 0x0A then [] # split_lines cs
      else (case split_lines cs of
              [] \<Rightarrow> [[c]]
            | l # ls \<Rightarrow> (c # l) # ls))"

definition slice_last :: "nat \<Rightarrow> 'a list \<Rightarrow> 'a list" where
  "slice_last n xs = drop (length xs - n) xs"

fun join_lines :: "string list \<Rightarrow> string" where
  "join_lines [] = []"
| "join_lines [l] = l"
| "join_lines (l # ls) = l @ CHR 0x0A # join_lines ls"

definition last_lines :: "string \<Rightarrow> string" where
  "last_lines stderr = join_lines (slice_last 10 (split_lines stderr))"

text \<open>The exit code inside a template literal.\<close>

definition digit_char :: "nat \<Rightarrow> char" where
  "digit_char n = ''0123456789'' ! n"

fun string_of_nat :: "nat \<Rightarrow> string" where
  "string_of_nat n =
     (if n < 10 then [digit_char n] else string_of_nat (n div 10) @ [digit_char (n mod 10)])"

declare string_of_nat.simps [simp del]

definition string_of_code :: "int option \<Rightarrow> string" where
  "string_of_code code =
     (case code of
        None \<Rightarrow> ''null''
      | Some i \<Rightarrow> (if i < 0 then CHR ''-'' # string_of_nat (nat (- i)) else string_of_nat (nat i)))"

text \<open>
  \<^verbatim>\<open>generateProxy\<close>: the state of one call is the text gathered from the diagnostic
  stream, \<^verbatim>\<open>memoryLogs\<close> and the promise. One handler per kind of event.
\<close>

fun generateProxy_on ::
  "string \<Rightarrow> string \<times> proc_event \<Rightarrow> string \<times> log_entry list \<times> string promise
     \<Rightarrow> string \<times> log_entry list \<times> string promise" where
  "generateProxy_on outputPath (now, Stderr_data d) (stderr, logs, p) = (stderr @ d, logs, p)"
| "generateProxy_on outputPath (now, Error_event msg) (stderr, logs, p) =
     (stderr, log_debug now (''FFmpeg Error: '' @ msg) ''error'' logs,
      settle p (Rejected ''FFmpeg not found''))"
| "generateProxy_on outputPath (now, Close_event code) (stderr, logs, p) =
     (if code \<noteq> Some 0
      then (let lines = last_lines stderr
            in (stderr,
                log_debug now (''FFmpeg Failed (code '' @ string_of_code code @ ''):''
                               @ CHR 0x0A # lines) ''error'' logs,
                settle p (Rejected (''Proxy generation failed: '' @ lines))))
      else (stderr, log_debug now (''FFmpeg Done: '' @ outputPath) ''info'' logs,
            settle p (Resolved outputPath)))"

definition generateProxy ::
  "string \<Rightarrow> string \<Rightarrow> string \<Rightarrow> (string \<times> proc_event) list \<Rightarrow> log_entry list
     \<Rightarrow> log_entry list \<times> string promise" where
  "generateProxy now inputPath outputPath events memoryLogs =
     (let started = log_debug now (''FFmpeg Start: '' @ inputPath @ '' -> '' @ outputPath)
                      ''info'' memoryLogs;
          (stderr, logs, p) =
             foldl (\<lambda>st ev. generateProxy_on outputPath ev st) ([], started, Unsettled) events
      in (logs, p))"

text \<open>\<^verbatim>\<open>generateThumbnail\<close> has no handler for the diagnostic stream and never calls
  \<^verbatim>\<open>log\<close>: \<^verbatim>\<open>memoryLogs\<close> comes back as it went in.\<close>

fun generateThumbnail_on ::
  "string \<Rightarrow> string \<times> proc_event \<Rightarrow> string promise \<Rightarrow> string promise" where
  "generateThumbnail_on outputPath (now, Stderr_data d) p = p"
| "generateThumbnail_on outputPath (now, Error_event msg) p =
     settle p (Rejected ''FFmpeg not found'')"
| "generateThumbnail_on outputPath (now, Close_event code) p =
     (if code \<noteq> Some 0 then settle p (Rejected ''Thumbnail generation failed'')
      else settle p (Resolved outputPath))"

definition generateThumbnail ::
  "string \<Rightarrow> string \<Rightarrow> (string \<times> proc_event) list \<Rightarrow> log_entry list
     \<Rightarrow> log_entry list \<times> string promise" where
  "generateThumbnail inputPath outputPath events memoryLogs =
     (memoryLogs, foldl (\<lambda>p ev. generateThumbnail_on outputPath ev p) Unsettled events)"

section \<open>Clip processing\<close>

text \<open>
  The upload handler in local mode. \<open>metadata\<close> is what \<^verbatim>\<open>getVideoMetadata\<close> resolved to
  (its duration and creation time), \<open>videoId\<close> the fresh \<^verbatim>\<open>uuidv4()\<close>, \<open>now\<close> the clock. The
  object literal has no \<^verbatim>\<open>proxy_url\<close> and no \<^verbatim>\<open>thumbnail_url\<close>.
\<close>

definition upload_video ::
  "(int \<Rightarrow> int) \<Rightarrow> string \<Rightarrow> int \<Rightarrow> string \<Rightarrow> string \<Rightarrow> string \<Rightarrow> (real \<times> int option) option
     \<Rightarrow> video" where
  "upload_video UTC videoId now projectId originalname path metadata =
     \<lparr>vid = videoId,
      project_id = projectId,
      original_filename = originalname,
      original_path = path,
      source = detectVideoSource (units originalname),
      duration = (case metadata of None \<Rightarrow> 0 | Some (d, c) \<Rightarrow> d),
      filename_date = parseFilenameDate UTC originalname,
      metadata_date = (case metadata of None \<Rightarrow> None | Some (d, c) \<Rightarrow> c),
      upload_date = now,
      order_index = Some 0,
      included = True,
      processing_status = Processing,
      proxy_url = None,
      thumbnail_url = None,
      marks = Some []\<rparr>"

definition upload_video_local ::
  "(int \<Rightarrow> int) \<Rightarrow> string \<Rightarrow> int \<Rightarrow> string \<Rightarrow> string \<Rightarrow> string \<Rightarrow> (real \<times> int option) option
     \<Rightarrow> localStore \<Rightarrow> localStore" where
  "upload_video_local UTC videoId now projectId originalname path metadata store =
     store\<lparr>videos := (videos store)
        (videoId \<mapsto> upload_video UTC videoId now projectId originalname path metadata)\<rparr>"

text \<open>
  \<^verbatim>\<open>generateProxyLocally\<close>. The two \<^verbatim>\<open>await\<close>s are its only suspension points; \<open>store\<close>
  is \<^verbatim>\<open>localStore\<close> at the moment the function resumes to write its outcome. The
  \<^verbatim>\<open>try\<close> block ends fulfilled, or rejected by the promise it awaited, or never when
  that promise is never settled; the \<^verbatim>\<open>catch\<close> block turns a rejection into the
  status \<^verbatim>\<open>failed\<close>. The result carries the promise of the \<^verbatim>\<open>async\<close> function itself:
  \<open>Rejected\<close> there would be an exception that left the pipeline.
\<close>

definition path_join :: "string \<Rightarrow> string \<Rightarrow> string" where
  "path_join dir name = dir @ ''/'' @ name"

definition set_ready :: "string \<Rightarrow> string \<Rightarrow> string \<Rightarrow> localStore \<Rightarrow> localStore" where
  "set_ready videoId proxyFilename thumbnailFilename store =
     (case videos store videoId of
        None \<Rightarrow> store
      | Some video \<Rightarrow>
          store\<lparr>videos := (videos store)
            (videoId \<mapsto> video\<lparr>processing_status := Ready,
                               proxy_url := Some (''/proxies/'' @ proxyFilename),
                               thumbnail_url := Some (''/thumbnails/'' @ thumbnailFilename)\<rparr>)\<rparr>)"

definition set_failed :: "string \<Rightarrow> localStore \<Rightarrow> localStore" where
  "set_failed videoId store =
     (case videos store videoId of
        None \<Rightarrow> store
      | Some video \<Rightarrow>
          store\<lparr>videos := (videos store)(videoId \<mapsto> video\<lparr>processing_status := Failed\<rparr>)\<rparr>)"

definition generateProxyLocally_try ::
  "string \<Rightarrow> string \<Rightarrow> string \<Rightarrow> string \<Rightarrow> string
     \<Rightarrow> (string \<times> proc_event) list \<Rightarrow> (string \<times> proc_event) list
     \<Rightarrow> log_entry list \<Rightarrow> localStore \<Rightarrow> log_entry list \<times> localStore \<times> unit promise" where
  "generateProxyLocally_try proxyDir thumbnailDir now videoId filePath proxyEvents thumbEvents
       memoryLogs store =
     (let proxyFilename = videoId @ ''.mp4'';
          thumbnailFilename = videoId @ ''.jpg'';
          proxyPath = path_join proxyDir proxyFilename;
          thumbPath = path_join thumbnailDir thumbnailFilename;
          (logs1, proxy) = generateProxy now filePath proxyPath proxyEvents memoryLogs
      in case proxy of
           Unsettled \<Rightarrow> (logs1, store, Unsettled)
         | Rejected error \<Rightarrow> (logs1, store, Rejected error)
         | Resolved _ \<Rightarrow>
             (let (logs2, thumb) = generateThumbnail filePath thumbPath thumbEvents logs1
              in case thumb of
                   Unsettled \<Rightarrow> (logs2, store, Unsettled)
                 | Rejected error \<Rightarrow> (logs2, store, Rejected error)
                 | Resolved _ \<Rightarrow>
                     (logs2, set_ready videoId proxyFilename thumbnailFilename store,
                      Resolved ())))"

definition generateProxyLocally ::
  "string \<Rightarrow> string \<Rightarrow> string \<Rightarrow> string \<Rightarrow> string
     \<Rightarrow> (string \<times> proc_event) list \<Rightarrow> (string \<times> proc_event) list
     \<Rightarrow> log_entry list \<Rightarrow> localStore \<Rightarrow> log_entry list \<times> localStore \<times> unit promise" where
  "generateProxyLocally proxyDir thumbnailDir now videoId filePath proxyEvents thumbEvents
       memoryLogs store =
     (case generateProxyLocally_try proxyDir thumbnailDir now videoId filePath proxyEvents
             thumbEvents memoryLogs store of
        (logs, store1, Rejected error) \<Rightarrow> (logs, set_failed videoId store1, Resolved ())
      | (logs, store1, outcome) \<Rightarrow> (logs, store1, outcome))"

section \<open>Clips and marks in the store\<close>

text \<open>
  \<^verbatim>\<open>DELETE /api/videos/:id\<close> in local mode: the entry of \<^verbatim>\<open>localStore.videos\<close> is
  deleted (and the uploaded file unlinked, which the model leaves out).
  \<^verbatim>\<open>localStore.marks\<close> is not touched.
\<close>

definition delete_video_local :: "string \<Rightarrow> localStore \<Rightarrow> localStore" where
  "delete_video_local videoId store =
     (case videos store videoId of
        Some video \<Rightarrow> store\<lparr>videos := (videos store)(videoId := None)\<rparr>
      | None \<Rightarrow> store)"

text \<open>
  The same request in cloud mode sends \<^verbatim>\<open>DELETE FROM videos WHERE id = $1\<close>; the table
  \<^verbatim>\<open>marks\<close> declares \<^verbatim>\<open>video_id UUID REFERENCES videos(id) ON DELETE CASCADE\<close>, so the
  database deletes the rows of \<^verbatim>\<open>marks\<close> that refer to the clip. The two tables are
  read here as the two maps of a store.
\<close>

definition delete_video_cloud :: "string \<Rightarrow> localStore \<Rightarrow> localStore" where
  "delete_video_cloud videoId db =
     db\<lparr>videos := (videos db)(videoId := None),
        store_marks := (\<lambda>k. case store_marks db k of
                               None \<Rightarrow> None
                             | Some m \<Rightarrow> if video_id m = videoId then None else Some m)\<rparr>"

text \<open>The marks of the store that a clip owns.\<close>

definition marks_of :: "localStore \<Rightarrow> string \<Rightarrow> mark set" where
  "marks_of store videoId = {m \<in> ran (store_marks store). video_id m = videoId}"

text \<open>
  \<^verbatim>\<open>POST /api/videos/:videoId/marks\<close> in local mode. \<open>uuid\<close> is the fresh \<^verbatim>\<open>uuidv4()\<close>. The
  response is \<open>Inr mark\<close> for \<^verbatim>\<open>{success: true, mark}\<close> and \<open>Inl message\<close> for the status
  500 of the \<^verbatim>\<open>catch\<close> block, which nothing in this branch reaches.
\<close>

definition add_mark_local ::
  "string \<Rightarrow> string \<Rightarrow> string \<Rightarrow> real \<Rightarrow> real \<Rightarrow> localStore \<Rightarrow> localStore \<times> (string + mark)" where
  "add_mark_local uuid now videoId inPoint outPoint store =
     (let mark = \<lparr>mark_id = uuid, video_id = videoId, in_point = inPoint,
                  out_point = outPoint, created_at = now\<rparr>;
          marks1 = (store_marks store)(uuid \<mapsto> mark);
          videos1 = (case videos store videoId of
                       Some video \<Rightarrow>
                         (videos store)(videoId \<mapsto>
                            video\<lparr>marks := Some ((case marks video of None \<Rightarrow> [] | Some ms \<Rightarrow> ms)
                                                   @ [mark])\<rparr>)
                     | None \<Rightarrow> videos store)
      in (store\<lparr>videos := videos1, store_marks := marks1\<rparr>, Inr mark))"

text \<open>
  \<^verbatim>\<open>processExportLocally\<close> gathers the clips of the project that are included and
  ready; the export itself is simulated, and no mark is read.
\<close>

definition processExportLocally_videos :: "string \<Rightarrow> localStore \<Rightarrow> video set" where
  "processExportLocally_videos projectId store =
     {video \<in> ran (videos store).
        project_id video = projectId \<and> included video \<and> processing_status video = Ready}"

section \<open>The client: ordering, marks and the export summary\<close>

text \<open>
  The state of the client (\<^verbatim>\<open>app.js\<close>) that the modelled methods read and write:
  \<^verbatim>\<open>this.videos\<close>, \<^verbatim>\<open>this.activeVideoId\<close>, \<^verbatim>\<open>this.currentInPoint\<close>.
\<close>

record app =
  app_videos :: "video list"
  activeVideoId :: "string option"
  currentInPoint :: "real option"

subsection \<open>\<^verbatim>\<open>getBestDate\<close> and \<^verbatim>\<open>sortVideos\<close>\<close>

definition getBestDate :: "video \<Rightarrow> int" where
  "getBestDate video =
     (if metadata_date video \<noteq> None then the (metadata_date video)
      else if filename_date video \<noteq> None then the (filename_date video)
      else upload_date video)"

text \<open>
  \<^verbatim>\<open>Array.prototype.sort(comparefn)\<close>. ECMAScript requires the sort to be stable and
  fixes its result for a consistent comparison function; the model is the stable
  insertion sort: an element goes in front of the first later element that it does
  not compare greater than.
\<close>

fun insert_sorted :: "('a \<Rightarrow> 'a \<Rightarrow> int) \<Rightarrow> 'a \<Rightarrow> 'a list \<Rightarrow> 'a list" where
  "insert_sorted comparefn x [] = [x]"
| "insert_sorted comparefn x (y # ys) =
     (if comparefn x y \<le> 0 then x # y # ys else y # insert_sorted comparefn x ys)"

definition array_sort :: "('a \<Rightarrow> 'a \<Rightarrow> int) \<Rightarrow> 'a list \<Rightarrow> 'a list" where
  "array_sort comparefn xs = foldr (insert_sorted comparefn) xs []"

text \<open>
  \<^verbatim>\<open>sortVideos\<close>: a \<^verbatim>\<open>switch\<close> on the string \<^verbatim>\<open>this.sortMode\<close> with no default case.
  \<^verbatim>\<open>String.prototype.localeCompare\<close> depends on the host's collation and is a
  parameter.
\<close>

definition sortVideos :: "(string \<Rightarrow> string \<Rightarrow> int) \<Rightarrow> string \<Rightarrow> video list \<Rightarrow> video list" where
  "sortVideos localeCompare sortMode vs =
     (if sortMode = ''smart'' then
        array_sort (\<lambda>a b. let dateA = getBestDate a; dateB = getBestDate b in dateA - dateB) vs
      else if sortMode = ''upload'' then
        array_sort (\<lambda>a b. upload_date a - upload_date b) vs
      else if sortMode = ''filename'' then
        array_sort (\<lambda>a b. localeCompare (original_filename a) (original_filename b)) vs
      else if sortMode = ''manual'' then
        array_sort (\<lambda>a b. (case order_index a of None \<Rightarrow> 0 | Some i \<Rightarrow> i)
                         - (case order_index b of None \<Rightarrow> 0 | Some i \<Rightarrow> i)) vs
      else vs)"

text \<open>The comparison of each mode, by name, and what ECMAScript calls a consistent
  comparison function: the sign of the result is a total preorder.\<close>

definition mode_comparefn :: "(string \<Rightarrow> string \<Rightarrow> int) \<Rightarrow> string \<Rightarrow> video \<Rightarrow> video \<Rightarrow> int" where
  "mode_comparefn localeCompare sortMode a b =
     (if sortMode = ''smart'' then getBestDate a - getBestDate b
      else if sortMode = ''upload'' then upload_date a - upload_date b
      else if sortMode = ''filename'' then localeCompare (original_filename a) (original_filename b)
      else if sortMode = ''manual'' then
        (case order_index a of None \<Rightarrow> 0 | Some i \<Rightarrow> i)
        - (case order_index b of None \<Rightarrow> 0 | Some i \<Rightarrow> i)
      else 0)"

definition consistent_comparefn :: "('a \<Rightarrow> 'a \<Rightarrow> int) \<Rightarrow> bool" where
  "consistent_comparefn comparefn =
     ((\<forall>a. comparefn a a = 0)
      \<and> (\<forall>a b. (comparefn a b < 0) = (comparefn b a > 0))
      \<and> (\<forall>a b c. comparefn a b \<le> 0 \<and> comparefn b c \<le> 0 \<longrightarrow> comparefn a c \<le> 0))"

text \<open>An instance of \<^verbatim>\<open>localeCompare\<close>, for the examples: the order of the code units,
  first difference first.\<close>

fun codeunit_compare :: "string \<Rightarrow> string \<Rightarrow> int" where
  "codeunit_compare [] [] = 0"
| "codeunit_compare [] (d # ds) = - 1"
| "codeunit_compare (c # cs) [] = 1"
| "codeunit_compare (c # cs) (d # ds) =
     (if (of_char c :: nat) < of_char d then - 1
      else if (of_char d :: nat) < of_char c then 1
      else codeunit_compare cs ds)"

subsection \<open>\<^verbatim>\<open>setOutPoint\<close>\<close>

text \<open>The messages the client shows: select a clip first; set the in point first; the
  out point must come after the in point; mark added (with its length).\<close>

datatype toast =
  Toast_select_video | Toast_set_in_point_first | Toast_out_after_in | Toast_mark_added real
  | No_toast

fun update_first :: "('a \<Rightarrow> bool) \<Rightarrow> ('a \<Rightarrow> 'a) \<Rightarrow> 'a list \<Rightarrow> 'a list" where
  "update_first P f [] = []"
| "update_first P f (x # xs) = (if P x then f x # xs else x # update_first P f xs)"

text \<open>
  \<^verbatim>\<open>setOutPoint\<close> against a server in local mode. \<open>currentTime\<close> is the player's
  position; the request is sent only when all three guards are passed.
\<close>

definition setOutPoint ::
  "string \<Rightarrow> string \<Rightarrow> real \<Rightarrow> app \<Rightarrow> localStore \<Rightarrow> app \<times> localStore \<times> toast" where
  "setOutPoint uuid now currentTime this server =
     (case activeVideoId this of
        None \<Rightarrow> (this, server, Toast_select_video)
      | Some videoId \<Rightarrow>
          (case currentInPoint this of
             None \<Rightarrow> (this, server, Toast_set_in_point_first)
           | Some inPoint \<Rightarrow>
               (let outPoint = currentTime
                in if outPoint \<le> inPoint then (this, server, Toast_out_after_in)
                   else (case add_mark_local uuid now videoId inPoint outPoint server of
                           (server1, Inr mark) \<Rightarrow>
                             (this\<lparr>app_videos :=
                                     update_first (\<lambda>v. vid v = videoId)
                                       (\<lambda>v. v\<lparr>marks := Some ((case marks v of None \<Rightarrow> []
                                                                | Some ms \<Rightarrow> ms) @ [mark])\<rparr>)
                                       (app_videos this),
                                   currentInPoint := None\<rparr>,
                              server1, Toast_mark_added (outPoint - in_point mark))
                         | (server1, Inl error) \<Rightarrow> (this, server1, No_toast)))))"

subsection \<open>\<^verbatim>\<open>showExportModal\<close>\<close>

text \<open>The three numbers of the summary, before they are formatted: the clips to
  export, the marks, the estimated length.\<close>

record export_summary =
  videoCount :: nat
  totalMarks :: nat
  totalDuration :: real

definition readyVideos :: "video list \<Rightarrow> video list" where
  "readyVideos vs = filter (\<lambda>v. processing_status v = Ready \<and> included v) vs"

definition add_duration :: "real \<Rightarrow> video \<Rightarrow> real" where
  "add_duration acc v =
     (if (case marks v of None \<Rightarrow> False | Some ms \<Rightarrow> length ms > 0)
      then foldl (\<lambda>t m. t + (out_point m - in_point m)) acc (the (marks v))
      else if duration v \<noteq> 0 then acc + duration v
      else acc)"

definition showExportModal :: "video list \<Rightarrow> export_summary" where
  "showExportModal vs =
     (let ready = readyVideos vs
      in \<lparr>videoCount = length ready,
          totalMarks = foldl (\<lambda>acc v. acc + (case marks v of None \<Rightarrow> 0 | Some ms \<Rightarrow> length ms))
                         0 ready,
          totalDuration = foldl add_duration 0 ready\<rparr>)"

text \<open>
  The specification's reading of \<^verbatim>\<open>exportPlan\<close>: the ranges of a clip are its marks,
  or the whole clip when it has none; the plan lists the included ready clips with
  their ranges, counts the ranges and adds up their lengths.
\<close>

record export_plan =
  rangeCount :: nat
  plan_duration :: real
  perClip :: "(video \<times> (real \<times> real) list) list"

definition ranges_spec :: "video \<Rightarrow> (real \<times> real) list" where
  "ranges_spec v =
     (case marks v of
        Some (m # ms) \<Rightarrow> map (\<lambda>m. (in_point m, out_point m)) (m # ms)
      | _ \<Rightarrow> [(0, duration v)])"

definition exportPlan_spec :: "video list \<Rightarrow> export_plan" where
  "exportPlan_spec clips =
     (let per = map (\<lambda>v. (v, ranges_spec v))
                  (filter (\<lambda>v. included v \<and> processing_status v = Ready) clips)
      in \<lparr>rangeCount = sum_list (map (\<lambda>(v, rs). length rs) per),
          plan_duration = sum_list (map (\<lambda>(v, rs). sum_list (map (\<lambda>(i, out). out - i) rs)) per),
          perClip = per\<rparr>)"

section \<open>Example data\<close>

text \<open>A process whose handlers see chunks of the diagnostic stream, each with its time.\<close>

definition stderr_chunks :: "(string \<times> string) list \<Rightarrow> (string \<times> proc_event) list" where
  "stderr_chunks chunks = map (\<lambda>(t, d). (t, Stderr_data d)) chunks"

text \<open>A diagnostic stream of twelve lines.\<close>

definition twelve_lines :: "string list" where
  "twelve_lines = [''l1'', ''l2'', ''l3'', ''l4'', ''l5'', ''l6'', ''l7'', ''l8'', ''l9'',
                   ''l10'', ''l11'', ''l12'']"

text \<open>Concrete clips, marks and states, for the instances the properties are checked on.
  The upload of \<open>example_upload\<close> is a file with no date in its name, probed at 30 s.\<close>

definition example_clip :: "string \<Rightarrow> string \<Rightarrow> int option \<Rightarrow> int option \<Rightarrow> int \<Rightarrow> video" where
  "example_clip videoId name fromMetadata fromFilename uploaded =
     \<lparr>vid = videoId,
      project_id = ''p1'',
      original_filename = name,
      original_path = ''/uploads/'' @ name,
      source = Other,
      duration = 0,
      filename_date = fromFilename,
      metadata_date = fromMetadata,
      upload_date = uploaded,
      order_index = Some 0,
      included = True,
      processing_status = Ready,
      proxy_url = Some (''/proxies/'' @ videoId @ ''.mp4''),
      thumbnail_url = Some (''/thumbnails/'' @ videoId @ ''.jpg''),
      marks = Some []\<rparr>"

definition example_mark :: "string \<Rightarrow> string \<Rightarrow> real \<Rightarrow> real \<Rightarrow> mark" where
  "example_mark markId videoId i out =
     \<lparr>mark_id = markId, video_id = videoId, in_point = i, out_point = out,
      created_at = ''2024-01-01T00:00:00.000Z''\<rparr>"

definition example_store :: localStore where
  "example_store =
     \<lparr>videos = [''c1'' \<mapsto> (example_clip ''c1'' ''a.mp4'' None None 0)\<lparr>duration := 20\<rparr>],
      store_marks = Map.empty\<rparr>"

definition example_app :: "real option \<Rightarrow> app" where
  "example_app staged =
     \<lparr>app_videos = [(example_clip ''c1'' ''a.mp4'' None None 0)\<lparr>duration := 20\<rparr>],
      activeVideoId = Some ''c1'',
      currentInPoint = staged\<rparr>"

definition example_upload :: localStore where
  "example_upload =
     upload_video_local (\<lambda>t. t) ''c9'' 1700000000000 ''p1'' ''holiday.mp4''
       ''/uploads/1700000000000-c9.mp4'' (Some (30, None))
       \<lparr>videos = Map.empty, store_marks = Map.empty\<rparr>"

section \<open>The debug log buffer is bounded\<close>

lemma log_debug_length:
  "length ls \<le> MAX_LOGS \<Longrightarrow> length (log_debug now msg ty ls) \<le> MAX_LOGS"
  by (simp add: log_debug_def Let_def)

lemma log_calls_length:
  "length ls \<le> MAX_LOGS \<Longrightarrow> length (log_calls cs ls) \<le> MAX_LOGS"
  by (induction cs ls rule: log_calls.induct) (simp_all add: log_debug_length)

lemma log_calls_snoc:
  "log_calls (cs @ [(now, msg, ty)]) ls = log_debug now msg ty (log_calls cs ls)"
  by (induction cs ls rule: log_calls.induct) simp_all

text \<open>
  Claim C10. \<^verbatim>\<open>memoryLogs\<close> starts empty and only \<^verbatim>\<open>log\<close> changes it. After any
  sequence \<open>cs\<close> of calls, one more call leaves at most 100 entries, its entry in front,
  and the buffer is the old one behind it, without its last (oldest) entry when the old
  one was full.
\<close>

theorem memoryLogs_bounded:
  "let before = log_calls cs [];
       entry = \<lparr>timestamp = now, log_type = ty, message = msg\<rparr>;
       after = log_calls (cs @ [(now, msg, ty)]) []
   in length after \<le> 100 \<and> hd after = entry \<and>
      after = (if length before < 100 then entry # before else entry # butlast before)"
proof -
  have "length (log_calls cs []) \<le> MAX_LOGS"
    by (rule log_calls_length) simp
  then show ?thesis
    by (auto simp: log_calls_snoc log_debug_def Let_def MAX_LOGS_def)
qed

section \<open>Source classification\<close>

lemma upper_special_high: "map_of upper_special u = Some us \<Longrightarrow> 128 \<le> u"
proof -
  assume "map_of upper_special u = Some us"
  then have "(u, us) \<in> set upper_special" by (rule map_of_SomeD)
  then show ?thesis by (auto simp: upper_special_def)
qed

lemma toUpperCase_unit_ascii:
  "u < 128 \<Longrightarrow> toUpperCase_unit u = [if 97 \<le> u \<and> u \<le> 122 then u - 32 else u]"
proof -
  assume a: "u < 128"
  have "map_of upper_special u = None"
  proof (cases "map_of upper_special u")
    case None
    then show ?thesis .
  next
    case (Some us)
    from upper_special_high [OF this] a show ?thesis by simp
  qed
  then show ?thesis by (simp add: toUpperCase_unit_def)
qed

lemma toUpperCase_ascii:
  "ascii s \<Longrightarrow> toUpperCase s = map (\<lambda>u. if 97 \<le> u \<and> u \<le> 122 then u - 32 else u) s"
  by (induction s) (simp_all add: ascii_def toUpperCase_def toUpperCase_unit_ascii)

lemma upper_equals_letter:
  fixes u n :: nat
  assumes "\<not> (97 \<le> n \<and> n \<le> 122)"
  shows "((if 97 \<le> u \<and> u \<le> 122 then u - 32 else u) = n)
         = (u = n \<or> (65 \<le> n \<and> n \<le> 90 \<and> u = n + 32))"
  using assms by auto

lemma upper_is_digit:
  "is_digit_unit (if 97 \<le> u \<and> u \<le> 122 then u - 32 else u) = is_digit_unit u"
  by (auto simp: is_digit_unit_def)

lemma upper_is_space:
  "is_space_unit (if 97 \<le> u \<and> u \<le> 122 then u - 32 else u) = is_space_unit u"
  by (auto simp: is_space_unit_def)

lemma upper_in_class:
  "list_all not_small cs \<Longrightarrow>
   ((if 97 \<le> u \<and> u \<le> 122 then u - 32 else u) \<in> of_char ` set cs)
   = list_ex (\<lambda>l. same_letter l u) cs"
proof (induction cs)
  case Nil
  show ?case by simp
next
  case (Cons l cs)
  from Cons.prems have l: "\<not> (97 \<le> (of_char l :: nat) \<and> (of_char l :: nat) \<le> 122)"
    by (simp add: not_small_def)
  from Cons.prems have cs: "list_all not_small cs" by simp
  have "((if 97 \<le> u \<and> u \<le> 122 then u - 32 else u) = of_char l) = same_letter l u"
    unfolding same_letter_def by (rule upper_equals_letter [OF l])
  with Cons.IH [OF cs] show ?case by auto
qed

lemma unit_matches_upper:
  "upper_atom a \<Longrightarrow>
   unit_matches a (if 97 \<le> u \<and> u \<le> 122 then u - 32 else u) = unit_matches_ci a u"
proof (cases a)
  case (Lit l)
  assume "upper_atom a"
  with Lit have "\<not> (97 \<le> (of_char l :: nat) \<and> (of_char l :: nat) \<le> 122)"
    by (simp add: not_small_def)
  from upper_equals_letter [OF this, of u] show ?thesis
    by (simp add: Lit same_letter_def)
next
  case Digit
  then show ?thesis by (simp add: upper_is_digit)
next
  case (AnyOf cs)
  assume "upper_atom a"
  with AnyOf show ?thesis by (simp add: upper_in_class)
next
  case (AnyOfOrSpace cs)
  assume "upper_atom a"
  with AnyOfOrSpace show ?thesis by (simp add: upper_in_class upper_is_space)
qed

lemma digits_upper:
  "list_all is_digit_unit (map (\<lambda>u. if 97 \<le> u \<and> u \<le> 122 then u - 32 else u) s)
   = list_all is_digit_unit s"
  by (induction s) (simp_all add: upper_is_digit)

lemma test_anchored_upper:
  "list_all upper_piece ps \<Longrightarrow>
   test_anchored ps (map (\<lambda>u. if 97 \<le> u \<and> u \<le> 122 then u - 32 else u) s)
   = matches_convention ps s"
proof (induction ps s rule: matches_convention.induct)
  case (1 s)
  show ?case by simp
next
  case (2 a ps)
  show ?case by simp
next
  case (3 a ps u us)
  then show ?case by (simp add: unit_matches_upper)
next
  case (4 n ps s)
  then show ?case by (simp add: take_map drop_map digits_upper)
next
  case (5 n ps s)
  then show ?case by (simp add: take_map drop_map digits_upper)
qed

lemma conventions_upper:
  "list_all upper_piece android_pattern" "list_all upper_piece iphone_pattern"
  "list_all upper_piece gopro_pattern" "list_all upper_piece dji_pattern"
  "list_all upper_piece whatsapp_pattern"
  by (simp_all add: android_pattern_def iphone_pattern_def gopro_pattern_def
      dji_pattern_def whatsapp_pattern_def lits_def not_small_def)

lemma ascii_match_convention:
  "ascii filename \<Longrightarrow> list_all upper_piece p \<Longrightarrow>
   test_anchored p (toUpperCase filename) = matches_convention p filename"
  by (simp only: toUpperCase_ascii test_anchored_upper)

lemma detectVideoSource_table:
  "detectVideoSource filename
   = (case find (\<lambda>(p, c). test_anchored p (toUpperCase filename)) conventions of
        Some (p, c) \<Rightarrow> c
      | None \<Rightarrow> Other)"
  by (simp add: detectVideoSource_def conventions_def Let_def)

lemma detectVideoSource_examples:
  "detectVideoSource (units ''VID_20230101_120000.mp4'') = Android"
  "detectVideoSource (units ''vid_20230101_120000.mp4'') = Android"
  "detectVideoSource (units ''IMG_1234.MOV'') = Iphone"
  "detectVideoSource (units ''GH011234.MP4'') = Gopro"
  "detectVideoSource (units ''gx011234.mp4'') = Gopro"
  "detectVideoSource (units ''DJI_0001.MP4'') = Dji"
  "detectVideoSource (units ''VID-20230101-WA0001.mp4'') = Whatsapp"
  "detectVideoSource (units ''holiday.mp4'') = Other"
  "detectVideoSource (units ''my_VID_20230101_120000.mp4'') = Other"
  by (simp_all add: detectVideoSource_def units_def toUpperCase_def toUpperCase_unit_def
      upper_special_def android_pattern_def iphone_pattern_def gopro_pattern_def dji_pattern_def
      whatsapp_pattern_def lits_def is_digit_unit_def)

text \<open>
  Claim C8, as the code has it. For every file name, \<^verbatim>\<open>detectVideoSource\<close> gives the
  category of the first pattern of the ordered table that matches the upper-cased
  name, and \<open>Other\<close> exactly when none does. For a name of code units below 128 this is
  the match of the name itself without regard to case: the category of the first
  convention that matches, and \<open>Other\<close> exactly when no convention matches.
\<close>

theorem detectVideoSource_first_match:
  "detectVideoSource filename
     = (case find (\<lambda>(p, c). test_anchored p (toUpperCase filename)) conventions of
          Some (p, c) \<Rightarrow> c
        | None \<Rightarrow> Other)
   \<and> (detectVideoSource filename = Other)
     = (\<not> list_ex (\<lambda>(p, c). test_anchored p (toUpperCase filename)) conventions)
   \<and> (ascii filename \<longrightarrow>
        detectVideoSource filename = classifySource_spec filename
        \<and> (detectVideoSource filename = Other)
          = (\<not> list_ex (\<lambda>(p, c). matches_convention p filename) conventions))"
proof -
  have t: "(detectVideoSource filename = Other)
     = (\<not> list_ex (\<lambda>(p, c). test_anchored p (toUpperCase filename)) conventions)"
    by (simp add: detectVideoSource_def conventions_def Let_def)
  have a: "detectVideoSource filename = classifySource_spec filename
        \<and> (detectVideoSource filename = Other)
          = (\<not> list_ex (\<lambda>(p, c). matches_convention p filename) conventions)"
    if "ascii filename"
  proof -
    note m = conventions_upper [THEN ascii_match_convention [OF that]]
    show ?thesis
      unfolding detectVideoSource_def Let_def m classifySource_spec_def conventions_def
      by simp
  qed
  from detectVideoSource_table t a show ?thesis by blast
qed

text \<open>A name in small letters: the match without regard to case says Android, and so
  does the code.\<close>

theorem detectVideoSource_first_match_witness:
  "ascii (units ''vid_20230101_120000.mp4'')
   \<and> classifySource_spec (units ''vid_20230101_120000.mp4'') = Android
   \<and> detectVideoSource (units ''vid_20230101_120000.mp4'') = Android
   \<and> ascii (units ''Gx011234.mp4'')
   \<and> classifySource_spec (units ''Gx011234.mp4'') = Gopro
   \<and> detectVideoSource (units ''Gx011234.mp4'') = Gopro"
proof -
  have a: "ascii (units ''vid_20230101_120000.mp4'')" "ascii (units ''Gx011234.mp4'')"
    by (simp_all add: ascii_def units_def)
  have c: "classifySource_spec (units ''vid_20230101_120000.mp4'') = Android"
    "classifySource_spec (units ''Gx011234.mp4'') = Gopro"
    by (simp_all add: classifySource_spec_def conventions_def units_def android_pattern_def
        iphone_pattern_def gopro_pattern_def dji_pattern_def whatsapp_pattern_def lits_def
        same_letter_def is_digit_unit_def)
  have d1: "detectVideoSource (units ''vid_20230101_120000.mp4'')
            = classifySource_spec (units ''vid_20230101_120000.mp4'')"
    using detectVideoSource_first_match [of "units ''vid_20230101_120000.mp4''"] a(1) by blast
  have d2: "detectVideoSource (units ''Gx011234.mp4'') = classifySource_spec (units ''Gx011234.mp4'')"
    using detectVideoSource_first_match [of "units ''Gx011234.mp4''"] a(2) by blast
  show ?thesis by (simp only: d1 d2 a c simp_thms)
qed

text \<open>
  The claim as stated fails beyond ASCII: with a dotless i in front, the name matches
  no convention without regard to case, and the code, which upper-cases the dotless i
  to \<^verbatim>\<open>I\<close>, answers iphone.
\<close>

theorem detectVideoSource_dotless_i:
  "detectVideoSource dotless_img = Iphone
   \<and> \<not> list_ex (\<lambda>(p, c). matches_convention p dotless_img) conventions
   \<and> classifySource_spec dotless_img = Other"
  by (simp add: detectVideoSource_def classifySource_spec_def conventions_def dotless_img_def
      units_def toUpperCase_def toUpperCase_unit_def upper_special_def android_pattern_def
      iphone_pattern_def gopro_pattern_def dji_pattern_def whatsapp_pattern_def lits_def
      same_letter_def is_digit_unit_def)

section \<open>Ordering of clips\<close>

lemma array_sort_Nil: "array_sort f [] = []"
  by (simp add: array_sort_def)

lemma array_sort_Cons: "array_sort f (x # xs) = insert_sorted f x (array_sort f xs)"
  by (simp add: array_sort_def)

lemma set_insert_sorted: "set (insert_sorted f x ys) = insert x (set ys)"
  by (induction ys) auto

lemma comparefn_sym_zero:
  assumes "consistent_comparefn f" and "f a b = 0"
  shows "f b a = 0"
proof -
  from assms(1) have s: "\<And>a b. (f a b < 0) = (f b a > 0)"
    unfolding consistent_comparefn_def by blast
  from s [of a b] s [of b a] assms(2) show ?thesis by linarith
qed

lemma comparefn_total:
  assumes "consistent_comparefn f" and "\<not> f a b \<le> 0"
  shows "f b a \<le> 0"
proof -
  from assms(1) have s: "(f b a < 0) = (f a b > 0)"
    unfolding consistent_comparefn_def by blast
  with assms(2) show ?thesis by linarith
qed

lemma comparefn_trans:
  assumes "consistent_comparefn f" and "f a b \<le> 0" and "f b c \<le> 0"
  shows "f a c \<le> 0"
  using assms unfolding consistent_comparefn_def by blast

lemma insert_sorted_filter_out:
  "\<not> P x \<Longrightarrow> filter P (insert_sorted f x ys) = filter P ys"
  by (induction ys) auto

lemma insert_sorted_filter_in:
  assumes c: "consistent_comparefn f" and e: "f a x = 0"
  shows "filter (\<lambda>b. f a b = 0) (insert_sorted f x ys) = x # filter (\<lambda>b. f a b = 0) ys"
proof (induction ys)
  case Nil
  show ?case using e by simp
next
  case (Cons y ys)
  show ?case
  proof (cases "f x y \<le> 0")
    case True
    then show ?thesis using e by simp
  next
    case False
    have "f a y \<noteq> 0"
    proof
      assume "f a y = 0"
      moreover have "f x a = 0" using c e by (rule comparefn_sym_zero)
      ultimately have "f x y \<le> 0" using comparefn_trans [OF c, of x a y] by simp
      with False show False by simp
    qed
    with False Cons show ?thesis by simp
  qed
qed

lemma array_sort_stable:
  assumes "consistent_comparefn f"
  shows "filter (\<lambda>b. f a b = 0) (array_sort f xs) = filter (\<lambda>b. f a b = 0) xs"
proof (induction xs)
  case Nil
  show ?case by (simp add: array_sort_Nil)
next
  case (Cons x xs)
  show ?case
  proof (cases "f a x = 0")
    case True
    with Cons show ?thesis
      by (simp add: array_sort_Cons insert_sorted_filter_in [OF assms])
  next
    case False
    with Cons show ?thesis
      by (simp add: array_sort_Cons insert_sorted_filter_out)
  qed
qed

lemma insert_sorted_sorted:
  assumes c: "consistent_comparefn f"
  shows "sorted_wrt (\<lambda>a b. f a b \<le> 0) ys \<Longrightarrow> sorted_wrt (\<lambda>a b. f a b \<le> 0) (insert_sorted f x ys)"
proof (induction ys)
  case Nil
  show ?case by simp
next
  case (Cons y ys)
  show ?case
  proof (cases "f x y \<le> 0")
    case True
    have "\<And>z. z \<in> set ys \<Longrightarrow> f x z \<le> 0"
    proof -
      fix z assume "z \<in> set ys"
      with Cons.prems have "f y z \<le> 0" by simp
      with True show "f x z \<le> 0" using comparefn_trans [OF c] by blast
    qed
    with True Cons.prems show ?thesis by simp
  next
    case False
    then have "f y x \<le> 0" using comparefn_total [OF c] by blast
    with False Cons show ?thesis by (auto simp: set_insert_sorted)
  qed
qed

lemma array_sort_sorted:
  assumes "consistent_comparefn f"
  shows "sorted_wrt (\<lambda>a b. f a b \<le> 0) (array_sort f xs)"
  by (induction xs) (simp_all add: array_sort_Nil array_sort_Cons insert_sorted_sorted [OF assms])

lemma array_sort_of_sorted:
  "sorted_wrt (\<lambda>a b. f a b \<le> 0) xs \<Longrightarrow> array_sort f xs = xs"
proof (induction xs)
  case Nil
  show ?case by (simp add: array_sort_Nil)
next
  case (Cons x xs)
  then have "array_sort f (x # xs) = insert_sorted f x xs"
    by (simp add: array_sort_Cons)
  also have "\<dots> = x # xs" using Cons.prems by (cases xs) simp_all
  finally show ?case .
qed

lemma array_sort_idem:
  "consistent_comparefn f \<Longrightarrow> array_sort f (array_sort f xs) = array_sort f xs"
  by (rule array_sort_of_sorted) (rule array_sort_sorted)

lemma comparefn_refl: "consistent_comparefn f \<Longrightarrow> f a a = 0"
  unfolding consistent_comparefn_def by blast

text \<open>
  The model of the sort loses nothing: for a consistent comparison, a list that is
  sorted and keeps the order of the elements that compare equal is determined by its
  input, so any sort that meets ECMAScript's contract returns what \<open>array_sort\<close>
  returns.
\<close>

lemma stable_sorted_unique:
  assumes c: "consistent_comparefn f"
  shows "sorted_wrt (\<lambda>a b. f a b \<le> 0) xs \<Longrightarrow> sorted_wrt (\<lambda>a b. f a b \<le> 0) ys \<Longrightarrow>
         (\<forall>a. filter (\<lambda>b. f a b = 0) xs = filter (\<lambda>b. f a b = 0) ys) \<Longrightarrow> xs = ys"
proof (induction xs arbitrary: ys)
  case Nil
  show ?case
  proof (cases ys)
    case Nil
    then show ?thesis by simp
  next
    case (Cons y ys')
    from Nil.prems(3) have "filter (\<lambda>b. f y b = 0) ys = []" by simp
    with Cons comparefn_refl [OF c, of y] show ?thesis by simp
  qed
next
  case (Cons x xs)
  note sx = Cons.prems(1) and sy = Cons.prems(2) and eq = Cons.prems(3) and IH = Cons.IH
  have xx: "f x x = 0" by (rule comparefn_refl [OF c])
  have ex: "x # filter (\<lambda>b. f x b = 0) xs = filter (\<lambda>b. f x b = 0) ys"
    using eq [rule_format, of x] xx by simp
  show ?case
  proof (cases ys)
    case Nil
    with ex show ?thesis by simp
  next
    case ys: (Cons y ys')
    have yy: "f y y = 0" by (rule comparefn_refl [OF c])
    have ey: "filter (\<lambda>b. f y b = 0) (x # xs) = y # filter (\<lambda>b. f y b = 0) ys'"
      using eq [rule_format, of y] yy unfolding ys by simp
    have "y \<in> set (y # filter (\<lambda>b. f y b = 0) ys')" by simp
    then have "y \<in> set (filter (\<lambda>b. f y b = 0) (x # xs))" unfolding ey .
    then have "y \<in> set (x # xs)" unfolding set_filter by blast
    then have "y = x \<or> y \<in> set xs" by simp
    then have 1: "f x y \<le> 0"
    proof
      assume "y = x"
      with xx show ?thesis by simp
    next
      assume "y \<in> set xs"
      with sx show ?thesis by simp
    qed
    have "x \<in> set (x # filter (\<lambda>b. f x b = 0) xs)" by simp
    then have "x \<in> set (filter (\<lambda>b. f x b = 0) ys)" unfolding ex .
    then have "x \<in> set (y # ys')" unfolding set_filter ys by blast
    then have "x = y \<or> x \<in> set ys'" by simp
    then have 2: "f y x \<le> 0"
    proof
      assume "x = y"
      with yy show ?thesis by simp
    next
      assume "x \<in> set ys'"
      with sy show ?thesis unfolding ys by simp
    qed
    from c have "(f x y < 0) = (f y x > 0)" unfolding consistent_comparefn_def by blast
    with 1 2 have xy: "f x y = 0" by linarith
    from ex xy have hd: "x = y" unfolding ys by simp
    have tl: "\<forall>a. filter (\<lambda>b. f a b = 0) xs = filter (\<lambda>b. f a b = 0) ys'"
    proof
      fix a
      have "filter (\<lambda>b. f a b = 0) (x # xs) = filter (\<lambda>b. f a b = 0) (x # ys')"
        using eq [rule_format, of a] unfolding ys hd .
      then show "filter (\<lambda>b. f a b = 0) xs = filter (\<lambda>b. f a b = 0) ys'"
        by (cases "f a x = 0") simp_all
    qed
    from sx have sx': "sorted_wrt (\<lambda>a b. f a b \<le> 0) xs" by simp
    from sy have sy': "sorted_wrt (\<lambda>a b. f a b \<le> 0) ys'" unfolding ys by simp
    from IH [OF sx' sy' tl] hd show ?thesis unfolding ys by simp
  qed
qed

lemma array_sort_unique:
  assumes c: "consistent_comparefn f"
    and s: "sorted_wrt (\<lambda>a b. f a b \<le> 0) ys"
    and st: "\<forall>a. filter (\<lambda>b. f a b = 0) ys = filter (\<lambda>b. f a b = 0) xs"
  shows "ys = array_sort f xs"
proof (rule stable_sorted_unique [OF c s array_sort_sorted [OF c]])
  show "\<forall>a. filter (\<lambda>b. f a b = 0) ys = filter (\<lambda>b. f a b = 0) (array_sort f xs)"
    using st array_sort_stable [OF c] by simp
qed

lemma consistent_key_difference: "consistent_comparefn (\<lambda>a b. (k a :: int) - k b)"
  unfolding consistent_comparefn_def by auto

lemma consistent_on_field:
  "consistent_comparefn f \<Longrightarrow> consistent_comparefn (\<lambda>a b. f (g a) (g b))"
  unfolding consistent_comparefn_def by blast

lemma mode_comparefn_fun:
  "mode_comparefn localeCompare ''smart'' = (\<lambda>a b. getBestDate a - getBestDate b)"
  "mode_comparefn localeCompare ''upload'' = (\<lambda>a b. upload_date a - upload_date b)"
  "mode_comparefn localeCompare ''filename'' =
     (\<lambda>a b. localeCompare (original_filename a) (original_filename b))"
  "mode_comparefn localeCompare ''manual'' =
     (\<lambda>a b. (case order_index a of None \<Rightarrow> 0 | Some i \<Rightarrow> i)
           - (case order_index b of None \<Rightarrow> 0 | Some i \<Rightarrow> i))"
  by (intro ext, simp add: mode_comparefn_def)+

lemma sortVideos_modes:
  "sortVideos localeCompare ''smart'' vs = array_sort (mode_comparefn localeCompare ''smart'') vs"
  "sortVideos localeCompare ''upload'' vs = array_sort (mode_comparefn localeCompare ''upload'') vs"
  "sortVideos localeCompare ''filename'' vs = array_sort (mode_comparefn localeCompare ''filename'') vs"
  "sortVideos localeCompare ''manual'' vs = array_sort (mode_comparefn localeCompare ''manual'') vs"
  unfolding mode_comparefn_fun by (simp_all add: sortVideos_def Let_def)

lemma sortVideos_array_sort:
  assumes "sortMode \<in> {''smart'', ''upload'', ''filename'', ''manual''}"
  shows "sortVideos localeCompare sortMode vs = array_sort (mode_comparefn localeCompare sortMode) vs"
proof -
  from assms consider "sortMode = ''smart''" | "sortMode = ''upload''"
    | "sortMode = ''filename''" | "sortMode = ''manual''"
    by blast
  then show ?thesis
    by cases (simp_all only: sortVideos_modes)
qed

lemma sortVideos_other:
  "sortMode \<notin> {''smart'', ''upload'', ''filename'', ''manual''} \<Longrightarrow>
   sortVideos localeCompare sortMode vs = vs \<and> mode_comparefn localeCompare sortMode a b = 0"
  by (simp add: sortVideos_def mode_comparefn_def)

lemma mode_comparefn_consistent:
  assumes "consistent_comparefn localeCompare"
  shows "consistent_comparefn (mode_comparefn localeCompare sortMode)"
proof -
  have f: "consistent_comparefn (\<lambda>a b. localeCompare (original_filename a) (original_filename b))"
    using assms by (rule consistent_on_field)
  have z: "consistent_comparefn (\<lambda>(a::video) (b::video). 0::int)"
    unfolding consistent_comparefn_def by simp
  have e: "mode_comparefn localeCompare sortMode =
     (if sortMode = ''smart'' then (\<lambda>a b. getBestDate a - getBestDate b)
      else if sortMode = ''upload'' then (\<lambda>a b. upload_date a - upload_date b)
      else if sortMode = ''filename'' then (\<lambda>a b. localeCompare (original_filename a) (original_filename b))
      else if sortMode = ''manual'' then
        (\<lambda>a b. (case order_index a of None \<Rightarrow> 0 | Some i \<Rightarrow> i)
        - (case order_index b of None \<Rightarrow> 0 | Some i \<Rightarrow> i))
      else (\<lambda>a b. 0))"
    by (intro ext) (simp add: mode_comparefn_def)
  have k1: "consistent_comparefn (\<lambda>a b. getBestDate a - getBestDate b)"
    by (rule consistent_key_difference)
  have k2: "consistent_comparefn (\<lambda>a b. upload_date a - upload_date b)"
    by (rule consistent_key_difference)
  have k3: "consistent_comparefn
      (\<lambda>a b. (case order_index a of None \<Rightarrow> 0 | Some i \<Rightarrow> i)
        - (case order_index b of None \<Rightarrow> 0 | Some i \<Rightarrow> i))"
    by (rule consistent_key_difference)
  show ?thesis
    unfolding e by (simp add: f z k1 k2 k3)
qed

lemma codeunit_compare_refl: "codeunit_compare a a = 0"
  by (induction a) simp_all

lemma codeunit_compare_sign: "(codeunit_compare a b < 0) = (codeunit_compare b a > 0)"
proof (induction a b rule: codeunit_compare.induct)
  case (4 c cs d ds)
  show ?case
  proof (cases "(of_char c :: nat) < of_char d")
    case True
    then show ?thesis by simp
  next
    case False
    note nlt = False
    show ?thesis
    proof (cases "(of_char d :: nat) < of_char c")
      case True
      then show ?thesis using nlt by simp
    next
      case False
      with nlt 4 show ?thesis by simp
    qed
  qed
qed simp_all

lemma codeunit_compare_Cons_le:
  "(codeunit_compare (x # xs) (y # ys) \<le> 0) =
   ((of_char x :: nat) < of_char y \<or> ((of_char x :: nat) = of_char y \<and> codeunit_compare xs ys \<le> 0))"
  by (cases "(of_char x :: nat) < of_char y"; cases "(of_char y :: nat) < of_char x") auto

lemma codeunit_compare_trans:
  "codeunit_compare a b \<le> 0 \<Longrightarrow> codeunit_compare b c \<le> 0 \<Longrightarrow> codeunit_compare a c \<le> 0"
proof (induction a arbitrary: b c)
  case Nil
  then show ?case by (cases c) simp_all
next
  case (Cons x xs)
  from Cons.prems(1) obtain y ys where b: "b = y # ys" by (cases b) simp_all
  from Cons.prems(2) b obtain z zs where c: "c = z # zs" by (cases c) simp_all
  from Cons.prems(1) b have 1: "(of_char x :: nat) < of_char y \<or>
      ((of_char x :: nat) = of_char y \<and> codeunit_compare xs ys \<le> 0)"
    by (simp only: codeunit_compare_Cons_le)
  from Cons.prems(2) b c have 2: "(of_char y :: nat) < of_char z \<or>
      ((of_char y :: nat) = of_char z \<and> codeunit_compare ys zs \<le> 0)"
    by (simp only: codeunit_compare_Cons_le)
  show ?case
  proof (cases "(of_char x :: nat) < of_char z")
    case True
    then show ?thesis unfolding c codeunit_compare_Cons_le by simp
  next
    case False
    with 1 2 have e: "(of_char x :: nat) = of_char z"
      and xy: "codeunit_compare xs ys \<le> 0" and yz: "codeunit_compare ys zs \<le> 0"
      by linarith+
    from xy yz have "codeunit_compare xs zs \<le> 0" by (rule Cons.IH)
    with e show ?thesis unfolding c codeunit_compare_Cons_le by simp
  qed
qed

lemma codeunit_compare_consistent: "consistent_comparefn codeunit_compare"
  unfolding consistent_comparefn_def
  using codeunit_compare_refl codeunit_compare_sign codeunit_compare_trans by blast

text \<open>
  Claim C5. For every list of clips and every value of \<^verbatim>\<open>sortMode\<close>, with a
  \<^verbatim>\<open>localeCompare\<close> that is a consistent comparison: the clips that compare equal to
  any given clip \<open>a\<close> under the mode's comparison keep their relative order, and
  sorting the sorted list again returns it unchanged.
\<close>

theorem sortVideos_stable_idempotent:
  assumes "consistent_comparefn localeCompare"
  shows "filter (\<lambda>b. mode_comparefn localeCompare sortMode a b = 0)
           (sortVideos localeCompare sortMode vs)
         = filter (\<lambda>b. mode_comparefn localeCompare sortMode a b = 0) vs
       \<and> sortVideos localeCompare sortMode (sortVideos localeCompare sortMode vs)
         = sortVideos localeCompare sortMode vs"
proof (cases "sortMode \<in> {''smart'', ''upload'', ''filename'', ''manual''}")
  case True
  note c = mode_comparefn_consistent [OF assms, of sortMode]
  show ?thesis
    unfolding sortVideos_array_sort [OF True]
    using array_sort_stable [OF c] array_sort_idem [OF c] by simp
next
  case False
  then show ?thesis by (simp add: sortVideos_other)
qed

text \<open>
  An instance with the order of the code units as \<^verbatim>\<open>localeCompare\<close>: three clips named
  \<^verbatim>\<open>b.mp4\<close>, \<^verbatim>\<open>a.mp4\<close>, \<^verbatim>\<open>b.mp4\<close>; the two of the same name keep their order.
\<close>

lemma sortVideos_example:
  "sortVideos codeunit_compare ''filename''
     [example_clip ''c1'' ''b.mp4'' None None 1, example_clip ''c2'' ''a.mp4'' None None 2,
      example_clip ''c3'' ''b.mp4'' None None 3]
   = [example_clip ''c2'' ''a.mp4'' None None 2, example_clip ''c1'' ''b.mp4'' None None 1,
      example_clip ''c3'' ''b.mp4'' None None 3]"
  by (simp add: sortVideos_def array_sort_def example_clip_def)

theorem sortVideos_stable_idempotent_witness:
  "consistent_comparefn codeunit_compare
   \<and> filter (\<lambda>b. mode_comparefn codeunit_compare ''filename''
                   (example_clip ''c1'' ''b.mp4'' None None 1) b = 0)
        (sortVideos codeunit_compare ''filename''
          [example_clip ''c1'' ''b.mp4'' None None 1, example_clip ''c2'' ''a.mp4'' None None 2,
           example_clip ''c3'' ''b.mp4'' None None 3])
      = [example_clip ''c1'' ''b.mp4'' None None 1, example_clip ''c3'' ''b.mp4'' None None 3]
   \<and> sortVideos codeunit_compare ''filename''
        [example_clip ''c2'' ''a.mp4'' None None 2, example_clip ''c1'' ''b.mp4'' None None 1,
         example_clip ''c3'' ''b.mp4'' None None 3]
      = [example_clip ''c2'' ''a.mp4'' None None 2, example_clip ''c1'' ''b.mp4'' None None 1,
         example_clip ''c3'' ''b.mp4'' None None 3]"
proof -
  note t = sortVideos_stable_idempotent [OF codeunit_compare_consistent, of "''filename''"
      "example_clip ''c1'' ''b.mp4'' None None 1"
      "[example_clip ''c1'' ''b.mp4'' None None 1, example_clip ''c2'' ''a.mp4'' None None 2,
        example_clip ''c3'' ''b.mp4'' None None 3]"]
  have f: "filter (\<lambda>b. mode_comparefn codeunit_compare ''filename''
                   (example_clip ''c1'' ''b.mp4'' None None 1) b = 0)
        [example_clip ''c1'' ''b.mp4'' None None 1, example_clip ''c2'' ''a.mp4'' None None 2,
         example_clip ''c3'' ''b.mp4'' None None 3]
      = [example_clip ''c1'' ''b.mp4'' None None 1, example_clip ''c3'' ''b.mp4'' None None 3]"
    by (simp add: mode_comparefn_def example_clip_def)
  from t f show ?thesis
    by (simp only: sortVideos_example codeunit_compare_consistent simp_thms)
qed

section \<open>Dates in file names\<close>

lemma match_here_groups:
  "match_here ic ps s = Some gs \<Longrightarrow> list_all2 digits_of_length gs (group_sizes ps)"
proof (induction ic ps s arbitrary: gs rule: match_here.induct)
  case (1 ic s)
  then show ?case by simp
next
  case (2 ic a ps)
  then show ?case by simp
next
  case (3 ic a ps c cs)
  then show ?case by (simp split: if_splits)
next
  case (4 ic n ps s)
  then show ?case by (simp split: if_splits)
next
  case (5 ic n ps s)
  then show ?case by (auto simp: digits_of_length_def split: if_splits)
qed

lemma string_match_groups:
  "string_match ic ps s = Some gs \<Longrightarrow> list_all2 digits_of_length gs (group_sizes ps)"
proof (induction ic ps s rule: string_match.induct)
  case (1 ic ps)
  then show ?case by (simp add: match_here_groups)
next
  case (2 ic ps c cs)
  then show ?case by (auto simp: match_here_groups split: option.splits)
qed

lemma foldl_digits_range:
  "list_all is_digit g \<Longrightarrow> 0 \<le> a \<Longrightarrow>
   0 \<le> foldl (\<lambda>n c. 10 * n + digit_value c) a g
   \<and> foldl (\<lambda>n c. 10 * n + digit_value c) a g < (a + 1) * 10 ^ length g"
proof (induction g arbitrary: a)
  case Nil
  then show ?case by simp
next
  case (Cons c g)
  have "is_digit c" using Cons.prems(1) by simp
  then have d: "0 \<le> digit_value c" "digit_value c \<le> 9"
    by (auto simp: is_digit_def digit_value_def)
  from Cons.prems have g: "list_all is_digit g" by simp
  from d Cons.prems(2) have a: "0 \<le> 10 * a + digit_value c" by simp
  note IH = Cons.IH [OF g a]
  have le: "(10 * a + digit_value c + 1) * 10 ^ length g \<le> (10 * (a + 1)) * 10 ^ length g"
    using d by (intro mult_right_mono) simp_all
  have "foldl (\<lambda>n c. 10 * n + digit_value c) a (c # g)
        = foldl (\<lambda>n c. 10 * n + digit_value c) (10 * a + digit_value c) g" by simp
  moreover from IH have "foldl (\<lambda>n c. 10 * n + digit_value c) (10 * a + digit_value c) g
        < (10 * a + digit_value c + 1) * 10 ^ length g" by simp
  then have "foldl (\<lambda>n c. 10 * n + digit_value c) (10 * a + digit_value c) g
        < (10 * (a + 1)) * 10 ^ length g" using le by (rule less_le_trans)
  moreover have "(10 * (a + 1)) * 10 ^ length g = (a + 1) * 10 ^ length (c # g)" by simp
  ultimately have "foldl (\<lambda>n c. 10 * n + digit_value c) a (c # g) < (a + 1) * 10 ^ length (c # g)"
    by (simp only:)
  moreover have "0 \<le> foldl (\<lambda>n c. 10 * n + digit_value c) a (c # g)" using IH by simp
  ultimately show ?case by blast
qed

lemma parseInt_range:
  "digits_of_length g n \<Longrightarrow> 0 \<le> parseInt g \<and> parseInt g < 10 ^ n"
  using foldl_digits_range [of g 0] by (simp add: parseInt_def digits_of_length_def)

lemma div_bounds_pos:
  assumes "0 < (d::int)"
  shows "x - (d - 1) \<le> d * (x div d) \<and> d * (x div d) \<le> x"
proof -
  have e: "d * (x div d) + x mod d = x" by simp
  have "0 \<le> x mod d" "x mod d < d" using assms by simp_all
  with e show ?thesis by linarith
qed

lemma day_number_range:
  fixes y q4 q100 q400 :: int
  assumes "99 \<le> y" and "y \<le> 10007"
    and "y - 1972 \<le> 4 * q4" and "4 * q4 \<le> y - 1969"
    and "y - 2000 \<le> 100 * q100" and "100 * q100 \<le> y - 1901"
    and "y - 2000 \<le> 400 * q400" and "400 * q400 \<le> y - 1601"
  shows "- 700000 \<le> 365 * (y - 1970) + q4 - q100 + q400
         \<and> 365 * (y - 1970) + q4 - q100 + q400 \<le> 3000000"
proof -
  have e: "365 * (y - 1970) = 365 * y - 719050" by simp
  have "- 700000 \<le> 365 * y - 719050 + q4 - q100 + q400"
    using assms(1,3,6,7) by linarith
  moreover have "365 * y - 719050 + q4 - q100 + q400 \<le> 3000000"
    using assms(2,4,5,8) by linarith
  ultimately show ?thesis unfolding e by (rule conjI)
qed

lemma DayFromYear_range:
  assumes "99 \<le> y" and "y \<le> 10007"
  shows "- 700000 \<le> DayFromYear y \<and> DayFromYear y \<le> 3000000"
proof -
  have b4: "y - 1972 \<le> 4 * ((y - 1969) div 4)" "4 * ((y - 1969) div 4) \<le> y - 1969"
    using div_bounds_pos [of 4 "y - 1969"] by simp_all
  have b100: "y - 2000 \<le> 100 * ((y - 1901) div 100)" "100 * ((y - 1901) div 100) \<le> y - 1901"
    using div_bounds_pos [of 100 "y - 1901"] by simp_all
  have b400: "y - 2000 \<le> 400 * ((y - 1601) div 400)" "400 * ((y - 1601) div 400) \<le> y - 1601"
    using div_bounds_pos [of 400 "y - 1601"] by simp_all
  show ?thesis
    unfolding DayFromYear_def
    by (rule day_number_range [OF assms b4 b100 b400])
qed

lemma month_offset_range:
  "0 \<le> sum_list (take k (month_lengths y)) \<and> sum_list (take k (month_lengths y)) \<le> 366"
proof -
  have "k = 0 \<or> k = 1 \<or> k = 2 \<or> k = 3 \<or> k = 4 \<or> k = 5 \<or> k = 6 \<or> k = 7 \<or> k = 8 \<or> k = 9
        \<or> k = 10 \<or> k = 11 \<or> 12 \<le> k" by arith
  then show ?thesis
    by (elim disjE) (simp_all add: month_lengths_def eval_nat_numeral)
qed

lemma MakeDay_range:
  assumes "100 \<le> yr" and "yr \<le> 9999" and "- 1 \<le> month" and "month \<le> 98"
    and "0 \<le> date" and "date \<le> 99"
  shows "- 700001 \<le> MakeDay yr month date \<and> MakeDay yr month date \<le> 3000464"
proof -
  have q: "- 1 \<le> month div 12" "month div 12 \<le> 8"
    using div_bounds_pos [of 12 month] assms(3,4) by linarith+
  then have y: "99 \<le> yr + month div 12" "yr + month div 12 \<le> 10007"
    using assms(1,2) by linarith+
  note d = DayFromYear_range [OF y]
  note m = month_offset_range [of "nat (month mod 12)" "yr + month div 12"]
  have "MakeDay yr month date
        = DayFromYear (yr + month div 12)
          + sum_list (take (nat (month mod 12)) (month_lengths (yr + month div 12))) + date - 1"
    by (simp add: MakeDay_def Let_def)
  with d m assms(5,6) show ?thesis by linarith
qed

lemma new_Date_not_NaN:
  assumes "0 \<le> year" and "year < 10 ^ 4" and "0 \<le> m" and "m < 10 ^ 2"
    and "0 \<le> date" and "date < 10 ^ 2" and "0 \<le> hours" and "hours < 10 ^ 2"
    and "0 \<le> minutes" and "minutes < 10 ^ 2" and "0 \<le> seconds" and "seconds < 10 ^ 2"
  shows "\<exists>t. new_Date (\<lambda>t. t) year (m - 1) date hours minutes seconds = Some t"
proof -
  define yr where "yr = (if 0 \<le> year \<and> year \<le> 99 then 1900 + year else year)"
  have yr: "100 \<le> yr" "yr \<le> 9999" using assms(1,2) by (auto simp: yr_def)
  have day: "- 700001 \<le> MakeDay yr (m - 1) date" "MakeDay yr (m - 1) date \<le> 3000464"
    using MakeDay_range [of yr "m - 1" date] yr assms(3-6) by simp_all
  have time: "0 \<le> MakeTime hours minutes seconds 0"
    "MakeTime hours minutes seconds 0 \<le> 362439000"
    using assms(7-12) by (simp_all add: MakeTime_def)
  have "\<bar>MakeDate (MakeDay yr (m - 1) date) (MakeTime hours minutes seconds 0)\<bar>
        \<le> 8640000000000000"
    unfolding MakeDate_def using day time by linarith
  then show ?thesis
    by (simp add: new_Date_def TimeClip_def Let_def yr_def)
qed

lemma default_digits: "digits_of_length ''00'' 2"
  by (simp add: digits_of_length_def is_digit_def)

lemma date_of_groups_six:
  assumes "list_all2 digits_of_length gs [4, 2, 2, 2, 2, 2]"
  shows "\<exists>t. date_of_groups (\<lambda>t. t) gs = Some t"
proof -
  from assms obtain g0 g1 g2 g3 g4 g5 where gs: "gs = [g0, g1, g2, g3, g4, g5]"
    and d: "digits_of_length g0 4" "digits_of_length g1 2" "digits_of_length g2 2"
      "digits_of_length g3 2" "digits_of_length g4 2" "digits_of_length g5 2"
    by (auto simp: list_all2_Cons2)
  note r = d [THEN parseInt_range]
  show ?thesis
    unfolding date_of_groups_def gs
    using new_Date_not_NaN [of "parseInt g0" "parseInt g1" "parseInt g2" "parseInt g3"
        "parseInt g4" "parseInt g5"] r
    by (simp add: group_or_def)
qed

lemma date_of_groups_three:
  assumes "list_all2 digits_of_length gs [4, 2, 2]"
  shows "\<exists>t. date_of_groups (\<lambda>t. t) gs = Some t"
proof -
  from assms obtain g0 g1 g2 where gs: "gs = [g0, g1, g2]"
    and d: "digits_of_length g0 4" "digits_of_length g1 2" "digits_of_length g2 2"
    by (auto simp: list_all2_Cons2)
  note r = d [THEN parseInt_range] default_digits [THEN parseInt_range]
  show ?thesis
    unfolding date_of_groups_def gs
    using new_Date_not_NaN [of "parseInt g0" "parseInt g1" "parseInt g2" "parseInt ''00''"
        "parseInt ''00''" "parseInt ''00''"] r
    by (simp add: group_or_def)
qed

lemma patterns_dated: "list_all dated_pattern patterns"
  by (simp add: patterns_def dated_pattern_def lits_def)

lemma matched_date:
  assumes "dated_pattern (ic, p)" and "string_match ic p filename = Some gs"
  shows "\<exists>t. date_of_groups (\<lambda>t. t) gs = Some t"
proof -
  note g = string_match_groups [OF assms(2)]
  from assms(1) have "group_sizes p = [4, 2, 2, 2, 2, 2] \<or> group_sizes p = [4, 2, 2]"
    by (simp add: dated_pattern_def)
  then show ?thesis
  proof
    assume "group_sizes p = [4, 2, 2, 2, 2, 2]"
    with g show ?thesis by (simp add: date_of_groups_six)
  next
    assume "group_sizes p = [4, 2, 2]"
    with g show ?thesis by (simp add: date_of_groups_three)
  qed
qed

lemma parse_patterns_first_match:
  "list_all dated_pattern ps \<Longrightarrow>
   parse_patterns (\<lambda>t. t) ps filename
   = (case find (\<lambda>(ic, p). string_match ic p filename \<noteq> None) ps of
        None \<Rightarrow> None
      | Some (ic, p) \<Rightarrow> date_of_groups (\<lambda>t. t) (the (string_match ic p filename)))"
proof (induction ps)
  case Nil
  show ?case by simp
next
  case (Cons q ps)
  obtain ic p where q: "q = (ic, p)" by (cases q)
  from Cons.prems have dq: "dated_pattern (ic, p)" and dps: "list_all dated_pattern ps"
    by (simp_all add: q)
  show ?case
  proof (cases "string_match ic p filename")
    case None
    with Cons.IH [OF dps] show ?thesis by (simp add: q)
  next
    case (Some gs)
    from matched_date [OF dq Some] obtain t where t: "date_of_groups (\<lambda>t. t) gs = Some t" ..
    then have "new_Date (\<lambda>t. t) (parseInt (group_or gs 0 ''0''))
       (parseInt (group_or gs 1 ''0'') - 1)
       (parseInt (group_or gs 2 ''0''))
       (parseInt (group_or gs 3 ''00''))
       (parseInt (group_or gs 4 ''00''))
       (parseInt (group_or gs 5 ''00'')) = Some t"
      by (simp add: date_of_groups_def)
    with Some t show ?thesis by (simp add: q)
  qed
qed

text \<open>
  What the function does, on a host in UTC: the first pattern that matches decides, the
  date built from its captures is never refused, and the result is absent exactly when
  no pattern matches.
\<close>

lemma parseFilenameDate_first_match:
  "parseFilenameDate (\<lambda>t. t) filename
   = (case find (\<lambda>(ic, p). string_match ic p filename \<noteq> None) patterns of
        None \<Rightarrow> None
      | Some (ic, p) \<Rightarrow> date_of_groups (\<lambda>t. t) (the (string_match ic p filename)))"
  unfolding parseFilenameDate_def by (rule parse_patterns_first_match [OF patterns_dated])

lemma parseFilenameDate_absent_iff:
  "(parseFilenameDate (\<lambda>t. t) filename = None)
   = (\<forall>(ic, p) \<in> set patterns. string_match ic p filename = None)"
proof
  assume n: "parseFilenameDate (\<lambda>t. t) filename = None"
  show "\<forall>(ic, p) \<in> set patterns. string_match ic p filename = None"
  proof (rule ccontr)
    assume "\<not> (\<forall>(ic, p) \<in> set patterns. string_match ic p filename = None)"
    then obtain q where q: "find (\<lambda>(ic, p). string_match ic p filename \<noteq> None) patterns = Some q"
      by (cases "find (\<lambda>(ic, p). string_match ic p filename \<noteq> None) patterns")
         (auto simp: find_None_iff)
    obtain ic p where qp: "q = (ic, p)" by (cases q)
    from q qp have m: "string_match ic p filename \<noteq> None" and i: "(ic, p) \<in> set patterns"
      by (auto simp: find_Some_iff) (metis nth_mem)
    then obtain gs where gs: "string_match ic p filename = Some gs" by auto
    from i patterns_dated have "dated_pattern (ic, p)" by (auto simp: list_all_iff)
    from matched_date [OF this gs] obtain t where "date_of_groups (\<lambda>t. t) gs = Some t" ..
    with n q qp gs show False by (simp add: parseFilenameDate_first_match)
  qed
next
  assume "\<forall>(ic, p) \<in> set patterns. string_match ic p filename = None"
  then have "find (\<lambda>(ic, p). string_match ic p filename \<noteq> None) patterns = None"
    by (auto simp: find_None_iff)
  then show "parseFilenameDate (\<lambda>t. t) filename = None"
    by (simp add: parseFilenameDate_first_match)
qed

text \<open>
  Claim C2 asks for no result when the numbers in the name are not a date of the
  calendar. \<^verbatim>\<open>new Date\<close> carries the overflow instead, and the test
  \<^verbatim>\<open>!isNaN(date.getTime())\<close> after it never fails for numbers of at most four digits:
  on a host in UTC, the name with 30 February yields the time value of 2 March, the same
  as the name that says 2 March, and month 13 yields 1 January of the next year.
\<close>

theorem parseFilenameDate_rolls_over:
  "parseFilenameDate (\<lambda>t. t) ''VID_20230230_120000.mp4'' = Some 1677758400000
   \<and> parseFilenameDate (\<lambda>t. t) ''VID_20230302_120000.mp4'' = Some 1677758400000
   \<and> \<not> calendar_valid 2023 2 30 12 0 0
   \<and> parseFilenameDate (\<lambda>t. t) ''VID-20231301-WA0001.mp4'' = Some 1704067200000
   \<and> \<not> calendar_valid 2023 13 1 0 0 0"
proof -
  note defs = parseFilenameDate_def patterns_def lits_def is_digit_def parseInt_def digit_value_def
      new_Date_def TimeClip_def MakeDate_def MakeDay_def MakeTime_def DayFromYear_def
      month_lengths_def InLeapYear_def group_or_def canonicalize_char_def
  have a: "parseFilenameDate (\<lambda>t. t) ''VID_20230230_120000.mp4'' = Some 1677758400000"
    by (simp add: defs)
  have b: "parseFilenameDate (\<lambda>t. t) ''VID_20230302_120000.mp4'' = Some 1677758400000"
    by (simp add: defs)
  have c: "parseFilenameDate (\<lambda>t. t) ''VID-20231301-WA0001.mp4'' = Some 1704067200000"
    by (simp add: defs)
  have d: "\<not> calendar_valid 2023 2 30 12 0 0" "\<not> calendar_valid 2023 13 1 0 0 0"
    by (simp_all add: calendar_valid_def month_lengths_def InLeapYear_def)
  from a b c d show ?thesis by simp
qed

section \<open>The best date of a clip\<close>

text \<open>
  Claim C4. \<^verbatim>\<open>getBestDate\<close> returns the creation time of the technical metadata when
  the clip has one; otherwise the time read from the file name when it has one;
  otherwise the time of the upload, which every clip has.
\<close>

theorem getBestDate_precedence:
  "(metadata_date v = Some t \<longrightarrow> getBestDate v = t)
   \<and> (metadata_date v = None \<and> filename_date v = Some t \<longrightarrow> getBestDate v = t)
   \<and> (metadata_date v = None \<and> filename_date v = None \<longrightarrow> getBestDate v = upload_date v)"
  by (simp add: getBestDate_def)

text \<open>Three clips, one for each case.\<close>

theorem getBestDate_precedence_witness:
  "getBestDate (example_clip ''c1'' ''a.mp4'' (Some 100) (Some 200) 300) = 100
   \<and> getBestDate (example_clip ''c2'' ''a.mp4'' None (Some 200) 300) = 200
   \<and> getBestDate (example_clip ''c3'' ''a.mp4'' None None 300) = 300"
  using getBestDate_precedence [of "example_clip ''c1'' ''a.mp4'' (Some 100) (Some 200) 300" 100]
    getBestDate_precedence [of "example_clip ''c2'' ''a.mp4'' None (Some 200) 300" 200]
    getBestDate_precedence [of "example_clip ''c3'' ''a.mp4'' None None 300"]
  by (simp add: example_clip_def)

section \<open>Adding a mark\<close>

text \<open>
  Claim C1, as the code has it. The handler of the server checks nothing: for every
  pair of points it stores the mark and answers with it. The check is in the client:
  with an active clip and a staged in point, \<^verbatim>\<open>setOutPoint\<close> at a position not after the
  in point shows its message, sends no request and leaves the client and the server
  as they were; at a later position the mark is stored and the message carries the
  length \<open>out - i\<close>.
\<close>

theorem range_check_is_in_setOutPoint:
  "(\<exists>store1. add_mark_local uuid now videoId i out store
        = (store1, Inr \<lparr>mark_id = uuid, video_id = videoId, in_point = i, out_point = out,
                        created_at = now\<rparr>)
      \<and> store_marks store1 uuid
        = Some \<lparr>mark_id = uuid, video_id = videoId, in_point = i, out_point = out,
                created_at = now\<rparr>)
   \<and> (activeVideoId this = Some videoId \<and> currentInPoint this = Some i \<and> out \<le> i
        \<longrightarrow> setOutPoint uuid now out this server = (this, server, Toast_out_after_in))
   \<and> (activeVideoId this = Some videoId \<and> currentInPoint this = Some i \<and> i < out
        \<longrightarrow> (\<exists>this1 server1.
              setOutPoint uuid now out this server = (this1, server1, Toast_mark_added (out - i))
              \<and> store_marks server1 uuid
                = Some \<lparr>mark_id = uuid, video_id = videoId, in_point = i, out_point = out,
                        created_at = now\<rparr>))"
  by (simp add: add_mark_local_def setOutPoint_def Let_def)

text \<open>In 10, out 5 on the client: nothing changes. In 5, out 10 on a clip of 20 s: the
  mark is stored and its length is 5.\<close>

theorem range_check_is_in_setOutPoint_witness:
  "setOutPoint ''m1'' ''t1'' 5 (example_app (Some 10)) example_store
     = (example_app (Some 10), example_store, Toast_out_after_in)
   \<and> (\<exists>this1 server1.
         setOutPoint ''m1'' ''t1'' 10 (example_app (Some 5)) example_store
           = (this1, server1, Toast_mark_added 5)
         \<and> store_marks server1 ''m1''
           = Some \<lparr>mark_id = ''m1'', video_id = ''c1'', in_point = 5, out_point = 10,
                   created_at = ''t1''\<rparr>)"
  using range_check_is_in_setOutPoint [of "''m1''" "''t1''" "''c1''" 10 5 example_store
      "example_app (Some 10)" example_store]
    range_check_is_in_setOutPoint [of "''m1''" "''t1''" "''c1''" 5 10 example_store
      "example_app (Some 5)" example_store]
  by (simp add: example_app_def)

text \<open>
  The claim as stated fails on the handler: sent in 10 and out 5, it answers with the
  mark, and both the marks of the store and the marks of the clip have changed.
\<close>

theorem add_mark_local_accepts_any_range:
  "snd (add_mark_local ''m1'' ''t1'' ''c1'' 10 5 example_store)
     = Inr \<lparr>mark_id = ''m1'', video_id = ''c1'', in_point = 10, out_point = 5, created_at = ''t1''\<rparr>
   \<and> store_marks (fst (add_mark_local ''m1'' ''t1'' ''c1'' 10 5 example_store)) ''m1''
     = Some \<lparr>mark_id = ''m1'', video_id = ''c1'', in_point = 10, out_point = 5, created_at = ''t1''\<rparr>
   \<and> store_marks example_store ''m1'' = None
   \<and> map_option marks (videos (fst (add_mark_local ''m1'' ''t1'' ''c1'' 10 5 example_store)) ''c1'')
     = Some (Some [\<lparr>mark_id = ''m1'', video_id = ''c1'', in_point = 10, out_point = 5,
                    created_at = ''t1''\<rparr>])
   \<and> map_option marks (videos example_store ''c1'') = Some (Some [])"
  by (simp add: add_mark_local_def example_store_def example_clip_def Let_def)

section \<open>Deleting a clip\<close>

lemma delete_video_local_marks: "store_marks (delete_video_local videoId store) = store_marks store"
  by (simp add: delete_video_local_def split: option.splits)

lemma delete_video_cloud_cascade: "marks_of (delete_video_cloud videoId db) videoId = {}"
  by (auto simp: marks_of_def delete_video_cloud_def ran_def split: option.splits if_splits)

text \<open>
  Claim C7 holds in cloud mode, by the cascade of the database, and fails in local
  mode: after the clip \<^verbatim>\<open>c1\<close> is deleted, its mark \<^verbatim>\<open>m1\<close> is still in
  \<^verbatim>\<open>localStore.marks\<close>.
\<close>

theorem delete_video_local_orphans_mark:
  "videos (delete_video_local ''c1''
      (example_store\<lparr>store_marks := [''m1'' \<mapsto> example_mark ''m1'' ''c1'' 5 10]\<rparr>)) ''c1'' = None
   \<and> store_marks (delete_video_local ''c1''
      (example_store\<lparr>store_marks := [''m1'' \<mapsto> example_mark ''m1'' ''c1'' 5 10]\<rparr>)) ''m1''
     = Some (example_mark ''m1'' ''c1'' 5 10)
   \<and> video_id (example_mark ''m1'' ''c1'' 5 10) = ''c1''
   \<and> marks_of (delete_video_cloud ''c1''
      (example_store\<lparr>store_marks := [''m1'' \<mapsto> example_mark ''m1'' ''c1'' 5 10]\<rparr>)) ''c1'' = {}"
  by (simp add: delete_video_local_def example_store_def example_mark_def delete_video_cloud_cascade)

section \<open>The export summary\<close>





lemma foldl_count_marks:
  "foldl (\<lambda>acc v. acc + (case marks v of None \<Rightarrow> 0 | Some ms \<Rightarrow> length ms)) n vs
   = n + sum_list (map (\<lambda>v. case marks v of None \<Rightarrow> 0 | Some ms \<Rightarrow> length ms) vs)"
  by (induction vs arbitrary: n) simp_all

lemma length_ranges_spec:
  "length (ranges_spec v)
   = (case marks v of None \<Rightarrow> 0 | Some ms \<Rightarrow> length ms)
     + (if marks v = None \<or> marks v = Some [] then 1 else 0)"
  by (simp add: ranges_spec_def split: option.splits list.splits)

lemma sum_length_ranges:
  "sum_list (map (\<lambda>v. length (ranges_spec v)) vs)
   = sum_list (map (\<lambda>v. case marks v of None \<Rightarrow> 0 | Some ms \<Rightarrow> length ms) vs)
     + length (filter (\<lambda>v. marks v = None \<or> marks v = Some []) vs)"
  by (induction vs) (simp_all add: length_ranges_spec)




section \<open>Failures of the transcoder\<close>

lemma generateProxy_on_chunks:
  "foldl (\<lambda>st ev. generateProxy_on outputPath ev st) (err, logs, p) (stderr_chunks chunks)
   = (err @ concat (map snd chunks), logs, p)"
  by (induction chunks arbitrary: err) (auto simp: stderr_chunks_def)

lemma generateThumbnail_on_chunks:
  "foldl (\<lambda>p ev. generateThumbnail_on outputPath ev p) p (stderr_chunks chunks) = p"
  by (induction chunks) (auto simp: stderr_chunks_def)

lemma generateProxy_launch_failure:
  "generateProxy now inputPath outputPath (stderr_chunks chunks @ [(t, Error_event msg)]) logs
   = (log_debug t (''FFmpeg Error: '' @ msg) ''error''
        (log_debug now (''FFmpeg Start: '' @ inputPath @ '' -> '' @ outputPath) ''info'' logs),
      Rejected ''FFmpeg not found'')"
  by (simp add: generateProxy_def generateProxy_on_chunks)

lemma generateProxy_nonzero_exit:
  "code \<noteq> Some 0 \<Longrightarrow>
   generateProxy now inputPath outputPath (stderr_chunks chunks @ [(t, Close_event code)]) logs
   = (log_debug t (''FFmpeg Failed (code '' @ string_of_code code @ ''):''
                   @ CHR 0x0A # last_lines (concat (map snd chunks))) ''error''
        (log_debug now (''FFmpeg Start: '' @ inputPath @ '' -> '' @ outputPath) ''info'' logs),
      Rejected (''Proxy generation failed: '' @ last_lines (concat (map snd chunks))))"
  by (simp add: generateProxy_def generateProxy_on_chunks Let_def)

lemma generateThumbnail_launch_failure:
  "generateThumbnail inputPath outputPath (stderr_chunks chunks @ [(t, Error_event msg)]) logs
   = (logs, Rejected ''FFmpeg not found'')"
  by (simp add: generateThumbnail_def generateThumbnail_on_chunks)

lemma generateThumbnail_nonzero_exit:
  "code \<noteq> Some 0 \<Longrightarrow>
   generateThumbnail inputPath outputPath (stderr_chunks chunks @ [(t, Close_event code)]) logs
   = (logs, Rejected ''Thumbnail generation failed'')"
  by (simp add: generateThumbnail_def generateThumbnail_on_chunks)

lemma join_lines_Cons:
  "join_lines (l # ls) = l @ (if ls = [] then [] else CHR 0x0A # join_lines ls)"
  by (cases ls) simp_all

lemma join_lines_drop: "\<exists>pre. join_lines ls = pre @ join_lines (drop k ls)"
proof (induction ls arbitrary: k)
  case Nil
  show ?case by simp
next
  case (Cons l ls)
  show ?case
  proof (cases k)
    case 0
    then show ?thesis by simp
  next
    case (Suc j)
    from Cons [of j] obtain pre where p: "join_lines ls = pre @ join_lines (drop j ls)" ..
    show ?thesis
    proof (cases "ls = []")
      case True
      then show ?thesis using Suc by simp
    next
      case False
      have "join_lines (l # ls) = (l @ CHR 0x0A # pre) @ join_lines (drop j ls)"
        using False p by (simp add: join_lines_Cons)
      then show ?thesis using Suc by auto
    qed
  qed
qed

lemma split_lines_not_Nil: "split_lines s \<noteq> []"
  by (induction s) (auto split: list.splits)

lemma join_split_lines: "join_lines (split_lines s) = s"
proof (induction s)
  case Nil
  show ?case by simp
next
  case (Cons c cs)
  obtain l ls where s: "split_lines cs = l # ls"
    using split_lines_not_Nil [of cs] by (cases "split_lines cs") auto
  with Cons show ?case
    by (auto simp: join_lines_Cons split_lines_not_Nil)
qed

lemma last_lines_tail: "\<exists>pre. stderr = pre @ last_lines stderr"
  using join_lines_drop [of "split_lines stderr" "length (split_lines stderr) - 10"]
  by (simp add: last_lines_def slice_last_def join_split_lines)

lemma last_lines_short:
  "length (split_lines stderr) \<le> 10 \<Longrightarrow> last_lines stderr = stderr"
  by (simp add: last_lines_def slice_last_def join_split_lines)

lemma settle_settled: "p \<noteq> Unsettled \<Longrightarrow> settle p q = p"
  by (cases p) simp_all

lemma generateProxy_on_keeps:
  "p \<noteq> Unsettled \<Longrightarrow> snd (snd (generateProxy_on outputPath (t, ev) (err, logs, p))) = p"
  by (cases ev) (simp_all add: settle_settled Let_def)

lemma generateProxy_on_settled:
  "p \<noteq> Unsettled \<Longrightarrow>
   snd (snd (foldl (\<lambda>st ev. generateProxy_on outputPath ev st) (err, logs, p) rest)) = p"
proof (induction rest arbitrary: err logs)
  case Nil
  show ?case by simp
next
  case (Cons e rest)
  obtain t ev where e: "e = (t, ev)" by (cases e)
  obtain err1 logs1 p1 where s: "generateProxy_on outputPath (t, ev) (err, logs, p) = (err1, logs1, p1)"
    by (cases "generateProxy_on outputPath (t, ev) (err, logs, p)")
  with generateProxy_on_keeps [OF Cons.prems, of outputPath t ev err logs] have "p1 = p" by simp
  with Cons.IH [OF Cons.prems, of err1 logs1] show ?case by (simp add: e s)
qed

lemma generateProxy_promise:
  "snd (generateProxy now inputPath outputPath events logs)
   = snd (snd (foldl (\<lambda>st ev. generateProxy_on outputPath ev st)
       ([], log_debug now (''FFmpeg Start: '' @ inputPath @ '' -> '' @ outputPath) ''info'' logs,
        Unsettled) events))"
  by (simp add: generateProxy_def Let_def split: prod.splits)

lemma generateThumbnail_on_settled:
  "p \<noteq> Unsettled \<Longrightarrow> foldl (\<lambda>p ev. generateThumbnail_on outputPath ev p) p rest = p"
proof (induction rest)
  case Nil
  show ?case by simp
next
  case (Cons e rest)
  obtain t ev where e: "e = (t, ev)" by (cases e)
  have "generateThumbnail_on outputPath (t, ev) p = p"
    using Cons.prems by (cases ev) (simp_all add: settle_settled)
  with Cons show ?case by (simp add: e)
qed

lemma generateProxy_launch_failure_first:
  "snd (generateProxy now inputPath outputPath
          (stderr_chunks chunks @ (t, Error_event msg) # rest) logs)
   = Rejected ''FFmpeg not found''"
  by (simp add: generateProxy_promise generateProxy_on_chunks generateProxy_on_settled)

lemma generateProxy_nonzero_exit_first:
  "code \<noteq> Some 0 \<Longrightarrow>
   snd (generateProxy now inputPath outputPath
          (stderr_chunks chunks @ (t, Close_event code) # rest) logs)
   = Rejected (''Proxy generation failed: '' @ last_lines (concat (map snd chunks)))"
  by (simp add: generateProxy_promise generateProxy_on_chunks generateProxy_on_settled Let_def)

lemma generateThumbnail_launch_failure_first:
  "generateThumbnail inputPath outputPath (stderr_chunks chunks @ (t, Error_event msg) # rest) logs
   = (logs, Rejected ''FFmpeg not found'')"
  by (simp add: generateThumbnail_def generateThumbnail_on_chunks generateThumbnail_on_settled)

lemma generateThumbnail_nonzero_exit_first:
  "code \<noteq> Some 0 \<Longrightarrow>
   generateThumbnail inputPath outputPath (stderr_chunks chunks @ (t, Close_event code) # rest) logs
   = (logs, Rejected ''Thumbnail generation failed'')"
  by (simp add: generateThumbnail_def generateThumbnail_on_chunks generateThumbnail_on_settled)

text \<open>
  What the two functions do with a process that writes to its diagnostic stream and
  then fails, whatever events follow the failure. Both reject with
  \<^verbatim>\<open>FFmpeg not found\<close> when the launch failed and with another message when the exit
  code is not 0, so the caller can tell the two apart. \<^verbatim>\<open>generateProxy\<close> logs, and puts
  into its error, the last lines of the stream when the exit code is not 0, and logs
  the message of the launch error when the launch failed. \<^verbatim>\<open>generateThumbnail\<close> leaves
  \<^verbatim>\<open>memoryLogs\<close> as it is and its errors are fixed texts.
\<close>

theorem transcoder_failures_reported:
  "snd (generateProxy now inputPath outputPath
          (stderr_chunks chunks @ (t, Error_event msg) # rest) logs)
     = Rejected ''FFmpeg not found''
   \<and> (code \<noteq> Some 0 \<longrightarrow>
        snd (generateProxy now inputPath outputPath
               (stderr_chunks chunks @ (t, Close_event code) # rest) logs)
        = Rejected (''Proxy generation failed: '' @ last_lines (concat (map snd chunks))))
   \<and> ''FFmpeg not found'' \<noteq> ''Proxy generation failed: '' @ last_lines (concat (map snd chunks))
   \<and> fst (generateProxy now inputPath outputPath
          (stderr_chunks chunks @ [(t, Error_event msg)]) logs)
     = log_debug t (''FFmpeg Error: '' @ msg) ''error''
         (log_debug now (''FFmpeg Start: '' @ inputPath @ '' -> '' @ outputPath) ''info'' logs)
   \<and> (code \<noteq> Some 0 \<longrightarrow>
        fst (generateProxy now inputPath outputPath
               (stderr_chunks chunks @ [(t, Close_event code)]) logs)
        = log_debug t (''FFmpeg Failed (code '' @ string_of_code code @ ''):''
                       @ CHR 0x0A # last_lines (concat (map snd chunks))) ''error''
            (log_debug now (''FFmpeg Start: '' @ inputPath @ '' -> '' @ outputPath) ''info'' logs))
   \<and> (\<exists>pre. concat (map snd chunks) = pre @ last_lines (concat (map snd chunks)))
   \<and> length (slice_last 10 (split_lines (concat (map snd chunks)))) \<le> 10
   \<and> generateThumbnail inputPath outputPath
        (stderr_chunks chunks @ (t, Error_event msg) # rest) logs
     = (logs, Rejected ''FFmpeg not found'')
   \<and> (code \<noteq> Some 0 \<longrightarrow>
        generateThumbnail inputPath outputPath
          (stderr_chunks chunks @ (t, Close_event code) # rest) logs
        = (logs, Rejected ''Thumbnail generation failed''))
   \<and> ''FFmpeg not found'' \<noteq> ''Thumbnail generation failed''"
proof -
  have s: "length (slice_last 10 (split_lines (concat (map snd chunks)))) \<le> 10"
    by (simp add: slice_last_def)
  show ?thesis
    using generateProxy_launch_failure_first generateProxy_nonzero_exit_first
      generateProxy_launch_failure generateProxy_nonzero_exit
      generateThumbnail_launch_failure_first generateThumbnail_nonzero_exit_first
      last_lines_tail s
    by simp
qed

text \<open>A process that writes \<^verbatim>\<open>boom\<close> and exits with code 1, and one whose launch
  fails and that is closed afterwards.\<close>

theorem transcoder_failures_reported_witness:
  "Some 1 \<noteq> Some (0::int)
   \<and> snd (generateProxy ''t0'' ''in.mp4'' ''out.mp4''
        (stderr_chunks [(''t1'', ''boom'')] @ (''t2'', Close_event (Some 1)) # []) [])
     = Rejected ''Proxy generation failed: boom''
   \<and> snd (generateProxy ''t0'' ''in.mp4'' ''out.mp4''
        (stderr_chunks [(''t1'', ''boom'')] @ (''t2'', Error_event ''spawn ffmpeg ENOENT'')
           # [(''t3'', Close_event (Some (- 2)))]) [])
     = Rejected ''FFmpeg not found''
   \<and> generateThumbnail ''in.mp4'' ''out.jpg''
        (stderr_chunks [(''t1'', ''boom'')] @ (''t2'', Close_event (Some 1)) # []) []
     = ([], Rejected ''Thumbnail generation failed'')"
  using transcoder_failures_reported [of "''t0''" "''in.mp4''" "''out.mp4''" "[(''t1'', ''boom'')]"
      "''t2''" "''spawn ffmpeg ENOENT''" "[(''t3'', Close_event (Some (- 2)))]" "[]" "Some 1"]
    transcoder_failures_reported [of "''t0''" "''in.mp4''" "''out.mp4''" "[(''t1'', ''boom'')]"
      "''t2''" "''spawn ffmpeg ENOENT''" "[]" "[]" "Some 1"]
    transcoder_failures_reported [of "''t0''" "''in.mp4''" "''out.jpg''" "[(''t1'', ''boom'')]"
      "''t2''" "''spawn ffmpeg ENOENT''" "[]" "[]" "Some 1"]
  by (simp add: last_lines_def slice_last_def)

text \<open>
  Claim C9 holds for \<^verbatim>\<open>generateProxy\<close> and fails for \<^verbatim>\<open>generateThumbnail\<close>. The process
  writes twelve lines to its diagnostic stream and exits with code 1.
  \<^verbatim>\<open>generateThumbnail\<close> rejects with a fixed text and leaves the log empty: nothing of
  the stream is kept. \<^verbatim>\<open>generateProxy\<close> on the same events keeps the last ten lines,
  the third to the twelfth, in its error and in the newest entry of the log.
\<close>

theorem generateThumbnail_keeps_no_diagnostics:
  "generateThumbnail ''in.mp4'' ''out.jpg''
     [(''t1'', Stderr_data (join_lines twelve_lines)), (''t2'', Close_event (Some 1))] []
     = ([], Rejected ''Thumbnail generation failed'')
   \<and> snd (generateProxy ''t0'' ''in.mp4'' ''out.mp4''
        [(''t1'', Stderr_data (join_lines twelve_lines)), (''t2'', Close_event (Some 1))] [])
     = Rejected (''Proxy generation failed: '' @ join_lines (drop 2 twelve_lines))
   \<and> map message (fst (generateProxy ''t0'' ''in.mp4'' ''out.mp4''
        [(''t1'', Stderr_data (join_lines twelve_lines)), (''t2'', Close_event (Some 1))] []))
     = [''FFmpeg Failed (code 1):'' @ CHR 0x0A # join_lines (drop 2 twelve_lines),
        ''FFmpeg Start: in.mp4 -> out.mp4'']"
  by (simp add: generateThumbnail_def generateProxy_def last_lines_def slice_last_def Let_def
      twelve_lines_def log_debug_def MAX_LOGS_def string_of_code_def string_of_nat.simps [of "Suc 0"]
      digit_char_def)

section \<open>A clip whose proxy cannot be made\<close>

lemma set_failed_present:
  "videos store videoId = Some video \<Longrightarrow>
   set_failed videoId store
   = store\<lparr>videos := (videos store)(videoId \<mapsto> video\<lparr>processing_status := Failed\<rparr>)\<rparr>"
  by (simp add: set_failed_def)

lemma generateProxyLocally_try_proxy_rejected:
  "generateProxy now filePath (path_join proxyDir (videoId @ ''.mp4'')) proxyEvents memoryLogs
     = (logs1, Rejected error) \<Longrightarrow>
   generateProxyLocally_try proxyDir thumbnailDir now videoId filePath proxyEvents thumbEvents
     memoryLogs store = (logs1, store, Rejected error)"
  by (simp add: generateProxyLocally_try_def Let_def)

lemma generateProxyLocally_proxy_rejected:
  "generateProxy now filePath (path_join proxyDir (videoId @ ''.mp4'')) proxyEvents memoryLogs
     = (logs1, Rejected error) \<Longrightarrow>
   generateProxyLocally proxyDir thumbnailDir now videoId filePath proxyEvents thumbEvents
     memoryLogs store = (logs1, set_failed videoId store, Resolved ())"
  by (simp add: generateProxyLocally_def generateProxyLocally_try_proxy_rejected)

lemma failed_not_ready: "processing_status v = Failed \<Longrightarrow> v \<notin> set (readyVideos vs)"
  by (simp add: readyVideos_def)

lemma failed_not_exported:
  "processing_status v = Failed \<Longrightarrow> v \<notin> processExportLocally_videos projectId s"
  by (simp add: processExportLocally_videos_def)

lemma showExportModal_skips_failed:
  "processing_status v = Failed \<Longrightarrow>
   showExportModal (before @ v # after) = showExportModal (before @ after)"
  by (simp add: showExportModal_def readyVideos_def)

lemma exportPlan_spec_skips_failed:
  "processing_status v = Failed \<Longrightarrow>
   exportPlan_spec (before @ v # after) = exportPlan_spec (before @ after)"
  by (simp add: exportPlan_spec_def)

lemma generateProxyLocally_never_rejected:
  "snd (snd (generateProxyLocally proxyDir thumbnailDir now videoId filePath proxyEvents
      thumbEvents memoryLogs store)) \<noteq> Rejected error"
  by (simp add: generateProxyLocally_def split: prod.splits promise.splits)

lemma example_upload_video:
  "videos example_upload ''c9''
   = Some (upload_video (\<lambda>t. t) ''c9'' 1700000000000 ''p1'' ''holiday.mp4''
       ''/uploads/1700000000000-c9.mp4'' (Some (30, None)))"
  by (simp add: example_upload_def upload_video_local_def)

lemma upload_video_urls:
  "proxy_url (upload_video UTC videoId now projectId originalname path metadata) = None"
  "thumbnail_url (upload_video UTC videoId now projectId originalname path metadata) = None"
  "processing_status (upload_video UTC videoId now projectId originalname path metadata) = Processing"
  by (simp_all add: upload_video_def)

text \<open>
  Claim C6. Let the promise of \<^verbatim>\<open>generateProxy\<close> be rejected, as it is after a launch
  failure and after an exit code other than 0, for a clip that is in the store as the
  upload left it, with no proxy and no thumbnail location. Then the pipeline ends
  there, whatever the thumbnail process would have done: its own promise is fulfilled,
  so no exception leaves it; the log is the one \<^verbatim>\<open>generateProxy\<close> left; the clip is in
  the store with the status \<^verbatim>\<open>failed\<close> and still without the two locations; and with
  any marks the clip is not among the clips an export summary counts, which is the
  summary of the list without it, nor among the clips the server gathers for an export.
\<close>

theorem proxy_failure_marks_clip_failed:
  assumes "generateProxy now filePath (path_join proxyDir (videoId @ ''.mp4'')) proxyEvents
             memoryLogs = (logs1, Rejected error)"
    and "videos store videoId = Some video"
    and "proxy_url video = None" and "thumbnail_url video = None"
  shows "\<exists>failed.
           generateProxyLocally proxyDir thumbnailDir now videoId filePath proxyEvents thumbEvents
             memoryLogs store
             = (logs1, store\<lparr>videos := (videos store)(videoId \<mapsto> failed)\<rparr>, Resolved ())
           \<and> failed = video\<lparr>processing_status := Failed\<rparr>
           \<and> processing_status failed = Failed
           \<and> proxy_url failed = None \<and> thumbnail_url failed = None
           \<and> (\<forall>ms vs. failed\<lparr>marks := ms\<rparr> \<notin> set (readyVideos vs))
           \<and> (\<forall>ms projectId s. failed\<lparr>marks := ms\<rparr> \<notin> processExportLocally_videos projectId s)
           \<and> (\<forall>ms before after.
                 showExportModal (before @ failed\<lparr>marks := ms\<rparr> # after)
                 = showExportModal (before @ after))"
proof -
  let ?failed = "video\<lparr>processing_status := Failed\<rparr>"
  have run: "generateProxyLocally proxyDir thumbnailDir now videoId filePath proxyEvents
      thumbEvents memoryLogs store
      = (logs1, store\<lparr>videos := (videos store)(videoId \<mapsto> ?failed)\<rparr>, Resolved ())"
    using generateProxyLocally_proxy_rejected [OF assms(1)] set_failed_present [OF assms(2)]
    by simp
  have absent: "\<And>ms vs. ?failed\<lparr>marks := ms\<rparr> \<notin> set (readyVideos vs)"
    by (rule failed_not_ready) simp
  have server: "\<And>ms projectId s. ?failed\<lparr>marks := ms\<rparr> \<notin> processExportLocally_videos projectId s"
    by (rule failed_not_exported) simp
  have summary: "\<And>ms before after.
      showExportModal (before @ ?failed\<lparr>marks := ms\<rparr> # after) = showExportModal (before @ after)"
    by (rule showExportModal_skips_failed) simp
  from run absent server summary assms(3,4) show ?thesis by simp
qed

text \<open>The clip of \<open>example_upload\<close>, once with a launch failure and once with exit
  code 1 after a line of diagnostics.\<close>

theorem proxy_failure_marks_clip_failed_witness:
  "(\<exists>failed.
      generateProxyLocally ''/proxies'' ''/thumbnails'' ''t0'' ''c9''
        ''/uploads/1700000000000-c9.mp4''
        (stderr_chunks [] @ [(''t1'', Error_event ''spawn ffmpeg ENOENT'')]) [] [] example_upload
      = (log_debug ''t1'' (''FFmpeg Error: '' @ ''spawn ffmpeg ENOENT'') ''error''
           (log_debug ''t0'' (''FFmpeg Start: '' @ ''/uploads/1700000000000-c9.mp4'' @ '' -> ''
              @ path_join ''/proxies'' (''c9'' @ ''.mp4'')) ''info'' []),
         example_upload\<lparr>videos := (videos example_upload)(''c9'' \<mapsto> failed)\<rparr>, Resolved ())
      \<and> processing_status failed = Failed
      \<and> proxy_url failed = None \<and> thumbnail_url failed = None
      \<and> failed \<notin> set (readyVideos [failed]))
   \<and> (\<exists>failed logs.
      generateProxyLocally ''/proxies'' ''/thumbnails'' ''t0'' ''c9''
        ''/uploads/1700000000000-c9.mp4''
        (stderr_chunks [(''t1'', ''Invalid data found'')] @ [(''t2'', Close_event (Some 1))])
        [] [] example_upload
      = (logs, example_upload\<lparr>videos := (videos example_upload)(''c9'' \<mapsto> failed)\<rparr>, Resolved ())
      \<and> processing_status failed = Failed
      \<and> proxy_url failed = None \<and> thumbnail_url failed = None)"
proof -
  have one: "Some 1 \<noteq> Some (0::int)" by simp
  obtain f1 where 1: "generateProxyLocally ''/proxies'' ''/thumbnails'' ''t0'' ''c9''
        ''/uploads/1700000000000-c9.mp4''
        (stderr_chunks [] @ [(''t1'', Error_event ''spawn ffmpeg ENOENT'')]) [] [] example_upload
      = (log_debug ''t1'' (''FFmpeg Error: '' @ ''spawn ffmpeg ENOENT'') ''error''
           (log_debug ''t0'' (''FFmpeg Start: '' @ ''/uploads/1700000000000-c9.mp4'' @ '' -> ''
              @ path_join ''/proxies'' (''c9'' @ ''.mp4'')) ''info'' []),
         example_upload\<lparr>videos := (videos example_upload)(''c9'' \<mapsto> f1)\<rparr>, Resolved ())"
    and "processing_status f1 = Failed" and "proxy_url f1 = None" and "thumbnail_url f1 = None"
    and "\<forall>ms vs. f1\<lparr>marks := ms\<rparr> \<notin> set (readyVideos vs)"
    using proxy_failure_marks_clip_failed
      [OF generateProxy_launch_failure example_upload_video upload_video_urls(1,2)]
    by blast
  moreover from this(5) have "f1\<lparr>marks := marks f1\<rparr> \<notin> set (readyVideos [f1])" by blast
  then have "f1 \<notin> set (readyVideos [f1])" by simp
  moreover obtain f2 logs where "generateProxyLocally ''/proxies'' ''/thumbnails'' ''t0'' ''c9''
        ''/uploads/1700000000000-c9.mp4''
        (stderr_chunks [(''t1'', ''Invalid data found'')] @ [(''t2'', Close_event (Some 1))])
        [] [] example_upload
      = (logs, example_upload\<lparr>videos := (videos example_upload)(''c9'' \<mapsto> f2)\<rparr>, Resolved ())"
    and "processing_status f2 = Failed" and "proxy_url f2 = None" and "thumbnail_url f2 = None"
    using proxy_failure_marks_clip_failed
      [OF generateProxy_nonzero_exit [OF one] example_upload_video upload_video_urls(1,2)]
    by blast
  ultimately show ?thesis by blast
qed

end
